theory Spec2Isabelle
  imports Main "HOL-Library.AList" "HOL-Library.Sublist"
begin

section \<open>Values exchanged with the tool host\<close>

text \<open>
  A parameter schema is the Python value that \<open>tool.inputSchema\<close> holds: a tree of
  dicts, lists and leaves. A dict is an association list in insertion order, the order
  in which \<open>schema.items()\<close> yields its entries.
\<close>

datatype json =
    JNull
  | JBool bool
  | JNum int
  | JStr string
  | JList "json list"
  | JDict "(string \<times> json) list"

text \<open>
  A number is a leaf; the model keeps integers, and a float is a leaf in the same way. An
  exception that leaves a function is a value of \<open>py_error\<close>, with its message.
\<close>

datatype py_error =
    TypeError string
  | AttributeError string
  | IndexError string
  | ValidationError string

fun class_name :: "json \<Rightarrow> string" where
  "class_name JNull = ''NoneType''"
| "class_name (JBool b) = ''bool''"
| "class_name (JNum n) = ''int''"
| "class_name (JStr s) = ''str''"
| "class_name (JList xs) = ''list''"
| "class_name (JDict kvs) = ''dict''"

definition quoted :: "string \<Rightarrow> string" where
  "quoted s = [CHR 0x27] @ s @ [CHR 0x27]"

definition not_iterable :: "string \<Rightarrow> string" where
  "not_iterable cls = quoted cls @ '' object is not iterable''"

definition no_attribute :: "string \<Rightarrow> string \<Rightarrow> string" where
  "no_attribute cls attr = quoted cls @ '' object has no attribute '' @ quoted attr"

section \<open>google\_client.py: the tool catalog adapter\<close>

text \<open>The keys that \<open>clean_schema_recursive\<close> skips, and the two spellings of a union.\<close>

definition unsupported_fields :: "string set" where
  "unsupported_fields = {''additional_properties'', ''additionalProperties'', ''examples''}"

definition is_union_key :: "string \<Rightarrow> bool" where
  "is_union_key key = (key = ''any_of'' \<or> key = ''anyOf'')"

text \<open>The fields kept at the top level of a tool's parameters.\<close>

definition supported_fields :: "string set" where
  "supported_fields =
     {''type'', ''properties'', ''required'', ''description'', ''title'', ''default'', ''enum''}"

text \<open>
  \<open>isinstance(option, dict) and option.get("type") != "null"\<close>: a dict whose
  \<open>type\<close> entry is absent or is anything but the string \<open>null\<close>.
\<close>

fun is_non_null_dict :: "json \<Rightarrow> bool" where
  "is_non_null_dict (JDict kvs) = (map_of kvs ''type'' \<noteq> Some (JStr ''null''))"
| "is_non_null_dict _ = False"

text \<open>
  \<open>for option in value\<close>: a list yields its items, a dict its keys, a string its
  characters; any other value is not iterable and the loop raises \<open>TypeError\<close>.
\<close>

fun iter_options :: "json \<Rightarrow> py_error + json list" where
  "iter_options (JList xs) = Inr xs"
| "iter_options (JDict kvs) = Inr (map (\<lambda>kv. JStr (fst kv)) kvs)"
| "iter_options (JStr s) = Inr (map (\<lambda>c. JStr [c]) s)"
| "iter_options v = Inl (TypeError (not_iterable (class_name v)))"

text \<open>The inner loop over the alternatives: the first one that passes the test, if any.\<close>

definition first_non_null :: "json \<Rightarrow> py_error + json option" where
  "first_non_null v =
     (case iter_options v of
        Inl e \<Rightarrow> Inl e
      | Inr opts \<Rightarrow> Inr (find is_non_null_dict opts))"

lemma first_non_null_size [termination_simp]:
  "first_non_null v = Inr (Some opt) \<Longrightarrow> size opt < size v"
proof (cases v)
  case (JList xs)
  assume "first_non_null v = Inr (Some opt)"
  with JList have "opt \<in> set xs"
    by (auto simp: first_non_null_def find_Some_iff)
  then have "size opt < Suc (size_list size xs)"
    by (induction xs) auto
  with JList show ?thesis by simp
qed (auto simp: first_non_null_def find_Some_iff)

text \<open>
  \<open>clean_schema_recursive\<close>, with the loop over \<open>schema.items()\<close> as \<open>clean_items\<close>
  (its second argument is the dict \<open>cleaned\<close> built so far) and the list comprehension
  as \<open>clean_list\<close>. A \<open>return\<close> inside the loop over the alternatives leaves the whole
  call with the cleaned alternative; \<open>cleaned[key] = ...\<close> is \<open>AList.update\<close>.
\<close>

fun clean_schema_recursive :: "json \<Rightarrow> py_error + json"
  and clean_items :: "(string \<times> json) list \<Rightarrow> (string \<times> json) list \<Rightarrow> py_error + json"
  and clean_list :: "json list \<Rightarrow> py_error + json list"
where
  "clean_schema_recursive (JDict kvs) = clean_items kvs []"
| "clean_schema_recursive (JList xs) =
     (case clean_list xs of Inl e \<Rightarrow> Inl e | Inr ys \<Rightarrow> Inr (JList ys))"
| "clean_schema_recursive JNull = Inr JNull"
| "clean_schema_recursive (JBool b) = Inr (JBool b)"
| "clean_schema_recursive (JNum n) = Inr (JNum n)"
| "clean_schema_recursive (JStr s) = Inr (JStr s)"
| "clean_items [] cleaned = Inr (JDict cleaned)"
| "clean_items ((key, v) # rest) cleaned =
     (if key \<in> unsupported_fields then clean_items rest cleaned
      else if is_union_key key then
        (case first_non_null v of
           Inl e \<Rightarrow> Inl e
         | Inr (Some opt) \<Rightarrow> clean_schema_recursive opt
         | Inr None \<Rightarrow> clean_items rest cleaned)
      else
        (case clean_schema_recursive v of
           Inl e \<Rightarrow> Inl e
         | Inr v' \<Rightarrow> clean_items rest (AList.update key v' cleaned)))"
| "clean_list [] = Inr []"
| "clean_list (x # xs) =
     (case clean_schema_recursive x of
        Inl e \<Rightarrow> Inl e
      | Inr y \<Rightarrow> (case clean_list xs of Inl e \<Rightarrow> Inl e | Inr ys \<Rightarrow> Inr (y # ys)))"

text \<open>What a tool host declares for one tool, and what the adapter hands to the model.\<close>

record mcp_tool =
  tool_name :: string
  tool_description :: "string option"
  inputSchema :: json

record function_declaration =
  fd_name :: string
  fd_description :: "string option"
  fd_parameters :: json

text \<open>
  The dict comprehension \<open>{k: v for k, v in cleaned_schema.items() if k in {...}}\<close>,
  as the loop it abbreviates.
\<close>

fun keep_supported :: "(string \<times> json) list \<Rightarrow> (string \<times> json) list \<Rightarrow> (string \<times> json) list" where
  "keep_supported [] parameters = parameters"
| "keep_supported ((k, v) # rest) parameters =
     (if k \<in> supported_fields then keep_supported rest (AList.update k v parameters)
      else keep_supported rest parameters)"

text \<open>
  The body of the loop over the tools in \<open>MCPGoogleClient.get_mcp_tools\<close>: clean the
  schema, then keep the supported top-level fields. \<open>.items()\<close> exists on a dict only.
\<close>

definition google_parameters :: "json \<Rightarrow> py_error + json" where
  "google_parameters schema =
     (case clean_schema_recursive schema of
        Inl e \<Rightarrow> Inl e
      | Inr (JDict cleaned_schema) \<Rightarrow> Inr (JDict (keep_supported cleaned_schema []))
      | Inr other \<Rightarrow> Inl (AttributeError (no_attribute (class_name other) ''items'')))"

text \<open>The loop over \<open>tools_result.tools\<close>, which fills the list \<open>tools\<close>.\<close>

fun google_declarations :: "mcp_tool list \<Rightarrow> py_error + function_declaration list" where
  "google_declarations [] = Inr []"
| "google_declarations (tool # rest) =
     (case google_parameters (inputSchema tool) of
        Inl e \<Rightarrow> Inl e
      | Inr parameters \<Rightarrow>
          (case google_declarations rest of
             Inl e \<Rightarrow> Inl e
           | Inr tools \<Rightarrow>
               Inr (\<lparr>fd_name = tool_name tool, fd_description = tool_description tool,
                     fd_parameters = parameters\<rparr> # tools)))"

text \<open>
  \<open>get_mcp_tools\<close> ends with \<open>return [types.Tool(function_declarations=tools)]\<close>. The
  constructor belongs to the model provider's library and validates what it is given:
  it is the parameter \<open>types_Tool\<close>, which returns the tool object (of a type \<open>'t\<close>) or
  raises.
\<close>

definition google_get_mcp_tools ::
  "(function_declaration list \<Rightarrow> py_error + 't) \<Rightarrow> mcp_tool list \<Rightarrow> py_error + 't list" where
  "google_get_mcp_tools types_Tool tools_result =
     (case google_declarations tools_result of
        Inl e \<Rightarrow> Inl e
      | Inr tools \<Rightarrow>
          (case types_Tool tools of
             Inl e \<Rightarrow> Inl e
           | Inr tool \<Rightarrow> Inr [tool]))"

section \<open>openai\_client.py: the tool catalog adapter\<close>

text \<open>\<open>MCPOpenAIClient.get_mcp_tools\<close> wraps each schema as it is.\<close>

definition openai_tool :: "mcp_tool \<Rightarrow> json" where
  "openai_tool tool =
     JDict [(''type'', JStr ''function''),
            (''function'',
               JDict [(''name'', JStr (tool_name tool)),
                      (''description'',
                         (case tool_description tool of None \<Rightarrow> JNull | Some d \<Rightarrow> JStr d)),
                      (''parameters'', inputSchema tool)])]"

definition openai_get_mcp_tools :: "mcp_tool list \<Rightarrow> json list" where
  "openai_get_mcp_tools tools = map openai_tool tools"

text \<open>The \<open>parameters\<close> entry of a tool in OpenAI format.\<close>

fun openai_parameters :: "json \<Rightarrow> json option" where
  "openai_parameters (JDict kvs) =
     (case map_of kvs ''function'' of
        Some (JDict f) \<Rightarrow> map_of f ''parameters''
      | _ \<Rightarrow> None)"
| "openai_parameters _ = None"

section \<open>Properties of a normalized schema\<close>

text \<open>
  No dict at any depth has one of the keys that \<open>clean_schema_recursive\<close> drops or
  resolves.
\<close>

fun stripped :: "json \<Rightarrow> bool"
  and stripped_items :: "(string \<times> json) list \<Rightarrow> bool"
  and stripped_list :: "json list \<Rightarrow> bool"
where
  "stripped (JDict kvs) = stripped_items kvs"
| "stripped (JList xs) = stripped_list xs"
| "stripped JNull = True"
| "stripped (JBool b) = True"
| "stripped (JNum n) = True"
| "stripped (JStr s) = True"
| "stripped_items [] = True"
| "stripped_items ((k, v) # rest) =
     (k \<notin> unsupported_fields \<and> \<not> is_union_key k \<and> stripped v \<and> stripped_items rest)"
| "stripped_list [] = True"
| "stripped_list (x # xs) = (stripped x \<and> stripped_list xs)"

text \<open>The top-level fields of a dict are all among the supported ones.\<close>

fun top_level_supported :: "json \<Rightarrow> bool" where
  "top_level_supported (JDict kvs) = list_all (\<lambda>kv. fst kv \<in> supported_fields) kvs"
| "top_level_supported _ = False"

text \<open>
  The whitelist at every schema node: at the node itself and, through its
  \<open>properties\<close> map (whose own keys are parameter names), at every nested one.
\<close>

fun whitelisted :: "json \<Rightarrow> bool"
  and whitelisted_fields :: "(string \<times> json) list \<Rightarrow> bool"
  and whitelisted_props :: "(string \<times> json) list \<Rightarrow> bool"
where
  "whitelisted (JDict kvs) = whitelisted_fields kvs"
| "whitelisted (JList xs) = True"
| "whitelisted JNull = True"
| "whitelisted (JBool b) = True"
| "whitelisted (JNum n) = True"
| "whitelisted (JStr s) = True"
| "whitelisted_fields [] = True"
| "whitelisted_fields ((k, v) # rest) =
     (k \<in> supported_fields \<and>
      (if k = ''properties'' then (case v of JDict props \<Rightarrow> whitelisted_props props | _ \<Rightarrow> True)
       else True) \<and>
      whitelisted_fields rest)"
| "whitelisted_props [] = True"
| "whitelisted_props ((name, schema) # rest) = (whitelisted schema \<and> whitelisted_props rest)"

text \<open>
  Every value under a union key, at any depth, can be iterated: the schemas on which
  \<open>clean_schema_recursive\<close> never raises.
\<close>

definition is_iterable :: "json \<Rightarrow> bool" where
  "is_iterable v = (case iter_options v of Inl e \<Rightarrow> False | Inr opts \<Rightarrow> True)"

fun iterable_unions :: "json \<Rightarrow> bool"
  and iterable_unions_items :: "(string \<times> json) list \<Rightarrow> bool"
  and iterable_unions_list :: "json list \<Rightarrow> bool"
where
  "iterable_unions (JDict kvs) = iterable_unions_items kvs"
| "iterable_unions (JList xs) = iterable_unions_list xs"
| "iterable_unions JNull = True"
| "iterable_unions (JBool b) = True"
| "iterable_unions (JNum n) = True"
| "iterable_unions (JStr s) = True"
| "iterable_unions_items [] = True"
| "iterable_unions_items ((k, v) # rest) =
     ((if is_union_key k then is_iterable v else True) \<and>
      iterable_unions v \<and> iterable_unions_items rest)"
| "iterable_unions_list [] = True"
| "iterable_unions_list (x # xs) = (iterable_unions x \<and> iterable_unions_list xs)"

fun is_dict :: "json \<Rightarrow> bool" where
  "is_dict (JDict kvs) = True"
| "is_dict _ = False"

text \<open>A Python dict holds each key once: so does every dict of a value, at every depth.\<close>

fun distinct_keys :: "json \<Rightarrow> bool"
  and distinct_keys_items :: "(string \<times> json) list \<Rightarrow> bool"
  and distinct_keys_list :: "json list \<Rightarrow> bool"
where
  "distinct_keys (JDict kvs) = (distinct (map fst kvs) \<and> distinct_keys_items kvs)"
| "distinct_keys (JList xs) = distinct_keys_list xs"
| "distinct_keys JNull = True"
| "distinct_keys (JBool b) = True"
| "distinct_keys (JNum n) = True"
| "distinct_keys (JStr s) = True"
| "distinct_keys_items [] = True"
| "distinct_keys_items ((k, v) # rest) = (distinct_keys v \<and> distinct_keys_items rest)"
| "distinct_keys_list [] = True"
| "distinct_keys_list (x # xs) = (distinct_keys x \<and> distinct_keys_list xs)"

section \<open>Normalization as the specification words it\<close>

text \<open>
  The specification (4.1) describes the walk over a schema by what it yields, not by a
  loop: drop the keys the provider never accepts; resolve a union by putting the
  non-null branch's schema in place of the node that holds the union; recurse into nested
  dicts and lists, lists element by element; keep everything else. The definitions below
  say this directly, to be compared with the code's \<open>clean_schema_recursive\<close>.

  \<open>first_branch\<close> is the branch that takes a node's place, if there is one: the first
  alternative that is a dict and is not the null type, of the first union entry that
  lists such an alternative.
\<close>

fun first_branch :: "(string \<times> json) list \<Rightarrow> json option" where
  "first_branch [] = None"
| "first_branch ((k, v) # rest) =
     (if is_union_key k then
        (case v of
           JList alternatives \<Rightarrow>
             (case find is_non_null_dict alternatives of
                Some branch \<Rightarrow> Some branch
              | None \<Rightarrow> first_branch rest)
         | _ \<Rightarrow> first_branch rest)
      else first_branch rest)"

lemma first_branch_cases:
  "first_branch kvs = Some branch \<Longrightarrow>
     \<exists>k alternatives. (k, JList alternatives) \<in> set kvs \<and> is_union_key k
        \<and> find is_non_null_dict alternatives = Some branch"
proof (induction kvs)
  case Nil
  then show ?case by simp
next
  case (Cons kv kvs)
  obtain k v where kv: "kv = (k, v)" by (cases kv)
  show ?case
  proof (cases "first_branch kvs = Some branch")
    case True
    with Cons.IH show ?thesis by auto
  next
    case False
    with Cons.prems kv have "is_union_key k \<and> (\<exists>alternatives. v = JList alternatives
        \<and> find is_non_null_dict alternatives = Some branch)"
      by (auto split: if_splits json.splits option.splits)
    with kv show ?thesis by auto
  qed
qed

lemma first_branch_size:
  "first_branch kvs = Some branch \<Longrightarrow> size branch < size (JDict kvs)"
proof -
  assume "first_branch kvs = Some branch"
  then obtain k alternatives where m: "(k, JList alternatives) \<in> set kvs"
    and f: "find is_non_null_dict alternatives = Some branch"
    using first_branch_cases by blast
  from f have "branch \<in> set alternatives" by (auto simp: find_Some_iff)
  then have "size branch < size (JList alternatives)"
    by (induction alternatives) auto
  moreover from m have "size (JList alternatives) < size (JDict kvs)"
    by (induction kvs) auto
  ultimately show ?thesis by simp
qed

lemma size_items_le:
  "size_list (\<lambda>p. size (snd p)) kvs \<le> size_list (size_prod (\<lambda>x. 0) size) kvs"
  by (induction kvs) auto

function (sequential) normalized_schema :: "json \<Rightarrow> json"
  and normalized_fields :: "(string \<times> json) list \<Rightarrow> (string \<times> json) list"
  and normalized_list :: "json list \<Rightarrow> json list"
where
  "normalized_schema (JDict kvs) =
     (case first_branch kvs of
        Some branch \<Rightarrow> normalized_schema branch
      | None \<Rightarrow> JDict (normalized_fields kvs))"
| "normalized_schema (JList xs) = JList (normalized_list xs)"
| "normalized_schema JNull = JNull"
| "normalized_schema (JBool b) = JBool b"
| "normalized_schema (JNum n) = JNum n"
| "normalized_schema (JStr s) = JStr s"
| "normalized_fields [] = []"
| "normalized_fields ((k, v) # rest) =
     (if k \<in> unsupported_fields \<or> is_union_key k then normalized_fields rest
      else (k, normalized_schema v) # normalized_fields rest)"
| "normalized_list [] = []"
| "normalized_list (x # xs) = normalized_schema x # normalized_list xs"
  by pat_completeness auto
termination
  by (relation "measure (case_sum size
        (case_sum (size_list (\<lambda>p. size (snd p))) (size_list size)))")
     (auto dest!: first_branch_size simp: less_Suc_eq_le size_items_le)

text \<open>
  Step 3 of the specification: of the normalized schema, the parameters keep the
  top-level fields that the provider recognizes.
\<close>

fun fields_of :: "json \<Rightarrow> (string \<times> json) list" where
  "fields_of (JDict kvs) = kvs"
| "fields_of _ = []"

definition normalized_parameters :: "json \<Rightarrow> json" where
  "normalized_parameters schema =
     JDict (filter (\<lambda>kv. fst kv \<in> supported_fields) (fields_of (normalized_schema schema)))"

definition normalized_declaration :: "mcp_tool \<Rightarrow> function_declaration" where
  "normalized_declaration tool =
     \<lparr>fd_name = tool_name tool, fd_description = tool_description tool,
      fd_parameters = normalized_parameters (inputSchema tool)\<rparr>"

section \<open>server.py: results of the query tools\<close>

text \<open>
  The values a query returns: lists, dicts (keys are strings, in insertion order),
  ObjectIds and other leaves. The type \<open>'o\<close> is \<open>bson.ObjectId\<close>, whose \<open>str\<close> is a
  parameter of the model; \<open>'a\<close> stands for the leaves that are none of the others
  (dates, floats, binary data).
\<close>

datatype ('o, 'a) bson =
    BList "('o, 'a) bson list"
  | BDict "(string \<times> ('o, 'a) bson) list"
  | BObjectId 'o
  | BStr string
  | BInt int
  | BBool bool
  | BNone
  | BOther 'a

text \<open>
  \<open>convert_objectids\<close>: the list comprehension is \<open>convert_objectids_list\<close>, the dict
  comprehension over \<open>obj.items()\<close> is \<open>convert_objectids_items\<close>.
\<close>

fun convert_objectids :: "('o \<Rightarrow> string) \<Rightarrow> ('o, 'a) bson \<Rightarrow> ('o, 'a) bson"
  and convert_objectids_list :: "('o \<Rightarrow> string) \<Rightarrow> ('o, 'a) bson list \<Rightarrow> ('o, 'a) bson list"
  and convert_objectids_items ::
    "('o \<Rightarrow> string) \<Rightarrow> (string \<times> ('o, 'a) bson) list \<Rightarrow> (string \<times> ('o, 'a) bson) list"
where
  "convert_objectids str (BList items) = BList (convert_objectids_list str items)"
| "convert_objectids str (BDict kvs) = BDict (convert_objectids_items str kvs)"
| "convert_objectids str (BObjectId obj) = BStr (str obj)"
| "convert_objectids str (BStr s) = BStr s"
| "convert_objectids str (BInt n) = BInt n"
| "convert_objectids str (BBool b) = BBool b"
| "convert_objectids str BNone = BNone"
| "convert_objectids str (BOther a) = BOther a"
| "convert_objectids_list str [] = []"
| "convert_objectids_list str (item # items) =
     convert_objectids str item # convert_objectids_list str items"
| "convert_objectids_items str [] = []"
| "convert_objectids_items str ((k, v) # kvs) =
     (k, convert_objectids str v) # convert_objectids_items str kvs"

text \<open>An ObjectId occurs somewhere in a value.\<close>

fun has_objectid :: "('o, 'a) bson \<Rightarrow> bool"
  and has_objectid_list :: "('o, 'a) bson list \<Rightarrow> bool"
  and has_objectid_items :: "(string \<times> ('o, 'a) bson) list \<Rightarrow> bool"
where
  "has_objectid (BList items) = has_objectid_list items"
| "has_objectid (BDict kvs) = has_objectid_items kvs"
| "has_objectid (BObjectId obj) = True"
| "has_objectid (BStr s) = False"
| "has_objectid (BInt n) = False"
| "has_objectid (BBool b) = False"
| "has_objectid BNone = False"
| "has_objectid (BOther a) = False"
| "has_objectid_list [] = False"
| "has_objectid_list (item # items) = (has_objectid item \<or> has_objectid_list items)"
| "has_objectid_items [] = False"
| "has_objectid_items ((k, v) # kvs) = (has_objectid v \<or> has_objectid_items kvs)"

text \<open>
  What the conversion is to achieve, stated on its own: \<open>converted str a b\<close> holds when
  \<open>b\<close> is \<open>a\<close> with every ObjectId replaced by its string form and everything else
  as it was: the same lists in the same order, the same dicts with the same keys in the
  same order, the same leaves.
\<close>

fun converted :: "('o \<Rightarrow> string) \<Rightarrow> ('o, 'a) bson \<Rightarrow> ('o, 'a) bson \<Rightarrow> bool"
  and converted_list :: "('o \<Rightarrow> string) \<Rightarrow> ('o, 'a) bson list \<Rightarrow> ('o, 'a) bson list \<Rightarrow> bool"
  and converted_items ::
    "('o \<Rightarrow> string) \<Rightarrow> (string \<times> ('o, 'a) bson) list \<Rightarrow> (string \<times> ('o, 'a) bson) list \<Rightarrow> bool"
where
  "converted str (BList xs) b = (case b of BList ys \<Rightarrow> converted_list str xs ys | _ \<Rightarrow> False)"
| "converted str (BDict kvs) b = (case b of BDict kvs' \<Rightarrow> converted_items str kvs kvs' | _ \<Rightarrow> False)"
| "converted str (BObjectId obj) b = (b = BStr (str obj))"
| "converted str (BStr s) b = (b = BStr s)"
| "converted str (BInt n) b = (b = BInt n)"
| "converted str (BBool t) b = (b = BBool t)"
| "converted str BNone b = (b = BNone)"
| "converted str (BOther a) b = (b = BOther a)"
| "converted_list str [] ys = (ys = [])"
| "converted_list str (x # xs) ys =
     (case ys of [] \<Rightarrow> False | y # ys' \<Rightarrow> converted str x y \<and> converted_list str xs ys')"
| "converted_items str [] kvs' = (kvs' = [])"
| "converted_items str ((k, v) # kvs) kvs' =
     (case kvs' of
        [] \<Rightarrow> False
      | kv' # rest \<Rightarrow> fst kv' = k \<and> converted str v (snd kv') \<and> converted_items str kvs rest)"

section \<open>server.py: the query tools\<close>

text \<open>
  A pymongo cursor is the query it will run: \<open>find\<close> sets the filter and the
  projection, \<open>sort\<close> and \<open>limit\<close> set their fields when they are called, and
  \<open>list(cursor)\<close> runs the query. \<open>c_limit = None\<close> is a cursor on which \<open>limit\<close> was
  never called.
\<close>

record cursor =
  c_filter :: json
  c_projection :: "json option"
  c_sort :: "(string \<times> int) list option"
  c_limit :: "int option"

datatype db_error =
    ConnectionFailure string
  | OperationFailure string
  | OtherError string

text \<open>
  The database is a parameter: given the connection string, the database and collection
  names and a cursor, \<open>list(cursor)\<close> returns the documents or raises.
\<close>

type_synonym ('o, 'a) database =
  "string \<Rightarrow> string \<Rightarrow> string \<Rightarrow> cursor \<Rightarrow> db_error + ('o, 'a) bson list"

text \<open>Python's truth value of an optional integer and of an optional list.\<close>

fun truthy_int :: "int option \<Rightarrow> bool" where
  "truthy_int None = False"
| "truthy_int (Some n) = (n \<noteq> 0)"

fun truthy_list :: "'b list option \<Rightarrow> bool" where
  "truthy_list None = False"
| "truthy_list (Some xs) = (xs \<noteq> [])"

text \<open>The three \<open>except\<close> clauses, each raising \<open>Exception\<close> with a message.\<close>

fun wrap_error :: "db_error \<Rightarrow> string" where
  "wrap_error (ConnectionFailure e) = ''Connection to MongoDB failed: '' @ e"
| "wrap_error (OperationFailure e) = ''Query operation failed: '' @ e"
| "wrap_error (OtherError e) = ''An error occurred: '' @ e"

text \<open>\<open>if sort: cursor = cursor.sort(sort)\<close> and \<open>if limit: cursor = cursor.limit(limit)\<close>.\<close>

definition apply_sort_limit :: "(string \<times> int) list option \<Rightarrow> int option \<Rightarrow> cursor \<Rightarrow> cursor" where
  "apply_sort_limit sort_by limit cursor =
     (let cursor = (if truthy_list sort_by then cursor\<lparr>c_sort := sort_by\<rparr> else cursor);
          cursor = (if truthy_int limit then cursor\<lparr>c_limit := limit\<rparr> else cursor)
      in cursor)"

definition execute_mongodb_query ::
  "('o, 'a) database \<Rightarrow> ('o \<Rightarrow> string) \<Rightarrow> json \<Rightarrow> string \<Rightarrow> string \<Rightarrow> string \<Rightarrow>
   json option \<Rightarrow> int option \<Rightarrow> (string \<times> int) list option \<Rightarrow> string + ('o, 'a) bson" where
  "execute_mongodb_query db str query collection_name database_name connection_string
       projection limit sort_by =
     (let cursor = \<lparr>c_filter = query, c_projection = projection, c_sort = None, c_limit = None\<rparr>;
          cursor = apply_sort_limit sort_by limit cursor
      in case db connection_string database_name collection_name cursor of
           Inl e \<Rightarrow> Inl (wrap_error e)
         | Inr results \<Rightarrow> Inr (convert_objectids str (BList results)))"

text \<open>
  \<open>get_users_by_city\<close> reads the connection string from the environment inside its
  \<open>try\<close>; a missing variable is a \<open>KeyError\<close>, caught by the last clause, and the
  \<open>str\<close> of a \<open>KeyError\<close> is the name in single quotes.
\<close>

definition city_filter :: "string \<Rightarrow> json" where
  "city_filter city =
     JDict [(''address.city'', JDict [(''$regex'', JStr city), (''$options'', JStr ''i'')])]"

definition get_users_by_city ::
  "('o, 'a) database \<Rightarrow> ('o \<Rightarrow> string) \<Rightarrow> string option \<Rightarrow> string \<Rightarrow>
   json option \<Rightarrow> int option \<Rightarrow> (string \<times> int) list option \<Rightarrow> string + ('o, 'a) bson" where
  "get_users_by_city db str environ city projection limit sort_by =
     (case environ of
        None \<Rightarrow> Inl (wrap_error (OtherError (quoted ''MONGODB_CONNECTION_STRING'')))
      | Some connection_string \<Rightarrow>
          (let cursor = \<lparr>c_filter = city_filter city, c_projection = projection,
                         c_sort = None, c_limit = None\<rparr>;
               cursor = apply_sort_limit sort_by limit cursor
           in case db connection_string ''UsersDB'' ''users'' cursor of
                Inl e \<Rightarrow> Inl (wrap_error e)
              | Inr results \<Rightarrow> Inr (convert_objectids str (BList results))))"

text \<open>
  \<open>get_mongodb_sample_documents\<close> passes its limit to \<open>find\<close> itself and has no
  \<open>try\<close>: what the database raises leaves the tool as it is.
\<close>

datatype tool_error = KeyError string | DbError db_error

definition get_mongodb_sample_documents ::
  "('o, 'a) database \<Rightarrow> ('o \<Rightarrow> string) \<Rightarrow> string option \<Rightarrow> string \<Rightarrow> string \<Rightarrow> int \<Rightarrow>
   tool_error + ('o, 'a) bson" where
  "get_mongodb_sample_documents db str environ database_name collection_name limit =
     (case environ of
        None \<Rightarrow> Inl (KeyError ''MONGODB_CONNECTION_STRING'')
      | Some connection_string \<Rightarrow>
          (case db connection_string database_name collection_name
                  \<lparr>c_filter = JDict [], c_projection = None, c_sort = None, c_limit = Some limit\<rparr> of
             Inl e \<Rightarrow> Inl (DbError e)
           | Inr samples \<Rightarrow> Inr (convert_objectids str (BList samples))))"

text \<open>A database for examples: three users; it honours a limit by truncating.\<close>

definition example_users :: "(string, unit) bson list" where
  "example_users =
     [BDict [(''_id'', BObjectId ''65f1a0''), (''name'', BStr ''Asha''),
             (''address'', BDict [(''city'', BStr ''Bangalore'')])],
      BDict [(''_id'', BObjectId ''65f1a1''), (''name'', BStr ''Ravi''),
             (''friends'', BList [BObjectId ''65f1a0'', BObjectId ''65f1a2''])],
      BDict [(''_id'', BObjectId ''65f1a2''), (''name'', BStr ''Meena''), (''age'', BInt 31)]]"

definition example_db :: "(string, unit) database" where
  "example_db connection_string database_name collection_name cursor =
     (case c_limit cursor of
        None \<Rightarrow> Inr example_users
      | Some n \<Rightarrow> Inr (take (nat n) example_users))"

text \<open>In the examples an ObjectId is given by its hexadecimal form, which is its \<open>str\<close>.\<close>

definition example_str :: "string \<Rightarrow> string" where
  "example_str h = h"

section \<open>The tool host and the model, as both clients see them\<close>

text \<open>
  A tool result's content blocks: \<open>text_content.text\<close> exists on a text block only; on
  any other block (an image, an embedded resource), named here by its class, reading it
  raises \<open>AttributeError\<close>.
\<close>

datatype content_block = TextContent string | OtherContent string

record call_tool_result =
  ctr_content :: "content_block list"
  isError :: bool

text \<open>
  The world outside a client is a state \<open>'w\<close> that every call may read and change, so
  that the host and the model may answer each call as they like. \<open>json_loads\<close> is
  \<open>json.loads\<close> on a string; \<open>call_tool\<close> and \<open>list_tools\<close> are the session's. A result
  \<open>Inl e\<close> is an exception whose \<open>str\<close> is \<open>e\<close>.
\<close>

record 'w host =
  json_loads :: "string \<Rightarrow> string + json"
  call_tool :: "'w \<Rightarrow> string \<Rightarrow> json \<Rightarrow> (string + call_tool_result) \<times> 'w"
  list_tools :: "'w \<Rightarrow> mcp_tool list \<times> 'w"

text \<open>
  What a run did, in order: each call of the model (with or without tools on offer) and
  each call of the tool host. The clients do not keep this record; it is there to state
  how many calls a run makes and in which order.
\<close>

datatype event = ModelCall bool | HostCall string json

fun is_model_call :: "event \<Rightarrow> bool" where
  "is_model_call (ModelCall tools_offered) = True"
| "is_model_call (HostCall name arguments) = False"

definition model_calls :: "event list \<Rightarrow> nat" where
  "model_calls trace = length (filter is_model_call trace)"

definition newline :: string where
  "newline = [CHR 0x0A]"

text \<open>
  \<open>for text_content in result.content: content += text_content.text + "\n"\<close>, the second
  argument being \<open>content\<close> so far.
\<close>

fun join_text :: "content_block list \<Rightarrow> string \<Rightarrow> string + string" where
  "join_text [] content = Inr content"
| "join_text (TextContent t # rest) content = join_text rest (content @ t @ newline)"
| "join_text (OtherContent cls # rest) content = Inl (no_attribute cls ''text'')"

definition error_executing_tool :: "string \<Rightarrow> string" where
  "error_executing_tool e = ''Error executing tool: '' @ e"

text \<open>
  The system instruction of each client, character for character: the string between the
  triple quotes, with its leading line break, its indentation and its trailing blanks.
\<close>

definition openai_system_instruction :: string where
  \<open>openai_system_instruction = concat
     [''\<newline>'',
      ''                    You are an AI assistant with access to tools. \<newline>'',
      ''                    You MUST respond with a tool_call if the answer requires external knowledge or tool usage. \<newline>'',
      ''                    QUERY CONSTRUCTION RULES:\<newline>'',
      ''                        1. Always call the tool to retrieve schema information (such as collection field names or sample documents) for the target database and collection.\<newline>'',
      ''                        2. Carefully analyze the schema/tool results to identify valid field names and nested paths using dot notation.\<newline>'',
      ''                        3. Use only validated fields from the schema to build queries.\<newline>'',
      ''                        4. NEVER guess or invent nested field names without confirming them from schema data.\<newline>'',
      ''                        5. For case-insensitive searches, use regex: {"address.city": {"$regex": "bangalore", "$options": "i"}}\<newline>'',
      ''                    When you receive tool results:\<newline>'',
      ''                        1. Extract relevant information \<newline>'',
      ''                        2. Provide a helpful summary to the user\<newline>'',
      ''                        3. If results are empty or error, explain what happened. \<newline>'',
      ''                    When generating tool_calls, ENSURE the arguments are serialized as valid JSON.\<newline>'',
      ''                '']\<close>

definition google_system_instruction :: string where
  \<open>google_system_instruction = concat
     [''\<newline>'',
      ''            You are an AI assistant with access to tools. \<newline>'',
      ''            You MUST respond with a function_call if the answer requires external knowledge or tool usage. \<newline>'',
      ''            QUERY CONSTRUCTION RULES:\<newline>'',
      ''                1. Always call the tool to retrieve schema information (such as collection field names or sample documents) for the target database and collection.\<newline>'',
      ''                2. Carefully analyze the schema/tool results to identify valid field names and nested paths using dot notation.\<newline>'',
      ''                3. Use only validated fields from the schema to build queries.\<newline>'',
      ''                4. NEVER guess or invent nested field names without confirming them from schema data.\<newline>'',
      ''                5. For case-insensitive searches, use regex: {"address.city": {"$regex": "bangalore", "$options": "i"}}\<newline>'',
      ''            When you receive tool results:\<newline>'',
      ''                1. Extract relevant information \<newline>'',
      ''                2. Provide a helpful summary to the user\<newline>'',
      ''                3. If results are empty or error, explain what happened. \<newline>'',
      ''            When generating function_calls, ENSURE the arguments are serialized as valid JSON.\<newline>'',
      ''        '']\<close>

section \<open>One tool invocation and its result, as the specification words them\<close>

text \<open>
  The specification (4.2 d) gives every tool invocation a result with a content text and
  an error mark: the arguments are parsed; the host is called with the name and the
  parsed arguments; on success the result holds the text of the returned content blocks;
  on a failure (arguments that do not parse, an exception of the call, a block without
  text) it holds the message \<open>Error executing tool: ...\<close> and is an error; a result that
  the host flags as an error is an error too. Invocations run one after the other, each
  in the world the one before left. \<open>invoke\<close> yields the result, the new world and the
  host call made, if one was made.
\<close>

record tool_result =
  tr_content :: string
  tr_is_error :: bool

definition failed :: "string \<Rightarrow> tool_result" where
  "failed e = \<lparr>tr_content = error_executing_tool e, tr_is_error = True\<rparr>"



section \<open>openai\_client.py: process\_query\<close>

record tool_call =
  tc_id :: string
  tc_name :: string
  tc_arguments :: string

text \<open>
  The assistant's message: \<open>content\<close> and \<open>tool_calls\<close> may each be \<open>None\<close>.
\<close>

record assistant_message =
  am_content :: "string option"
  am_tool_calls :: "tool_call list option"

text \<open>
  The entries of \<open>messages\<close>, by role; a tool message holds \<open>tool_call_id\<close> and
  \<open>content\<close> and nothing else.
\<close>

datatype message =
    SystemMessage string
  | UserMessage string
  | AssistantMessage assistant_message
  | ToolMessage string string

datatype tool_choice = Auto | NoTools

text \<open>
  \<open>chat.completions.create\<close>: the messages, the tools (absent in the final call) and
  the tool choice; the result is \<open>response.choices[0].message\<close>.
\<close>

type_synonym 'w chat_model =
  "'w \<Rightarrow> message list \<Rightarrow> json list option \<Rightarrow> tool_choice \<Rightarrow> assistant_message \<times> 'w"

record 'w ostate =
  o_world :: 'w
  messages :: "message list"
  o_trace :: "event list"

text \<open>\<open>not assistant_message.tool_calls\<close>: \<open>None\<close> and the empty list are both falsy.\<close>

fun no_tool_calls :: "tool_call list option \<Rightarrow> bool" where
  "no_tool_calls None = True"
| "no_tool_calls (Some tcs) = (tcs = [])"

fun the_tool_calls :: "tool_call list option \<Rightarrow> tool_call list" where
  "the_tool_calls None = []"
| "the_tool_calls (Some tcs) = tcs"

text \<open>
  The body of the loop over the tool calls: everything raised inside the \<open>try\<close> ends in
  the \<open>except\<close> clause, which appends a tool message with the error's text.
\<close>

definition openai_call_tool :: "'w host \<Rightarrow> tool_call \<Rightarrow> 'w ostate \<Rightarrow> 'w ostate" where
  "openai_call_tool host tool_call st =
     (case json_loads host (tc_arguments tool_call) of
        Inl e \<Rightarrow>
          st\<lparr>messages := messages st @ [ToolMessage (tc_id tool_call) (error_executing_tool e)]\<rparr>
      | Inr arguments \<Rightarrow>
          (case call_tool host (o_world st) (tc_name tool_call) arguments of
             (result, w) \<Rightarrow>
               (let st = st\<lparr>o_world := w,
                            o_trace := o_trace st @ [HostCall (tc_name tool_call) arguments]\<rparr>
                in case result of
                     Inl e \<Rightarrow>
                       st\<lparr>messages := messages st
                            @ [ToolMessage (tc_id tool_call) (error_executing_tool e)]\<rparr>
                   | Inr result \<Rightarrow>
                       (case join_text (ctr_content result) [] of
                          Inl e \<Rightarrow>
                            st\<lparr>messages := messages st
                                 @ [ToolMessage (tc_id tool_call) (error_executing_tool e)]\<rparr>
                        | Inr content \<Rightarrow>
                            st\<lparr>messages := messages st
                                 @ [ToolMessage (tc_id tool_call) content]\<rparr>))))"

fun openai_tool_calls :: "'w host \<Rightarrow> tool_call list \<Rightarrow> 'w ostate \<Rightarrow> 'w ostate" where
  "openai_tool_calls host [] st = st"
| "openai_tool_calls host (tool_call # rest) st =
     openai_tool_calls host rest (openai_call_tool host tool_call st)"

text \<open>
  The \<open>while\<close> loop and the final call after it. The assistant's message is appended
  before the test for tool calls; the final response is returned without being appended.
\<close>

function openai_loop ::
  "'w host \<Rightarrow> 'w chat_model \<Rightarrow> json list \<Rightarrow> int \<Rightarrow> int \<Rightarrow> 'w ostate \<Rightarrow> string option \<times> 'w ostate"
where
  "openai_loop host create tools max_iterations iteration_count st =
     (if iteration_count < max_iterations then
        (case create (o_world st) (messages st) (Some tools) Auto of
           (assistant_message, w) \<Rightarrow>
             (let st = st\<lparr>o_world := w, o_trace := o_trace st @ [ModelCall True],
                          messages := messages st @ [AssistantMessage assistant_message]\<rparr>
              in if no_tool_calls (am_tool_calls assistant_message)
                 then (am_content assistant_message, st)
                 else openai_loop host create tools max_iterations (iteration_count + 1)
                        (openai_tool_calls host (the_tool_calls (am_tool_calls assistant_message)) st)))
      else
        (case create (o_world st) (messages st) None NoTools of
           (final_response, w) \<Rightarrow>
             (am_content final_response,
              st\<lparr>o_world := w, o_trace := o_trace st @ [ModelCall False]\<rparr>)))"
  by pat_completeness auto
termination
  by (relation "measure (\<lambda>(host, create, tools, max_iterations, iteration_count, st).
        nat (max_iterations - iteration_count))") auto

declare openai_loop.simps [simp del]

definition openai_process_query ::
  "'w host \<Rightarrow> 'w chat_model \<Rightarrow> string \<Rightarrow> int \<Rightarrow> 'w \<Rightarrow> string option \<times> 'w ostate" where
  "openai_process_query host create query max_iterations w0 =
     (case list_tools host w0 of
        (tools_result, w) \<Rightarrow>
          openai_loop host create (openai_get_mcp_tools tools_result) max_iterations 0
            \<lparr>o_world = w,
             messages = [SystemMessage openai_system_instruction, UserMessage query],
             o_trace = []\<rparr>)"

fun tool_call_id :: "message \<Rightarrow> string option" where
  "tool_call_id (ToolMessage i content) = Some i"
| "tool_call_id _ = None"

text \<open>The host calls that a list of tool calls leads to: one for each whose arguments load.\<close>

definition openai_host_calls :: "'w host \<Rightarrow> tool_call list \<Rightarrow> event list" where
  "openai_host_calls host tcs =
     List.map_filter
       (\<lambda>tc. case json_loads host (tc_arguments tc) of
                Inl e \<Rightarrow> None
              | Inr arguments \<Rightarrow> Some (HostCall (tc_name tc) arguments)) tcs"



section \<open>google\_client.py: process\_query\<close>

text \<open>
  The arguments of a function call: a dict, or something else that goes to
  \<open>json.loads\<close> (a string, or \<open>None\<close>, on which \<open>json.loads\<close> raises \<open>TypeError\<close>).
\<close>

datatype payload = ArgsDict "(string \<times> json) list" | ArgsText string | ArgsNone

record function_call =
  fc_name :: string
  fc_args :: payload

record function_response =
  fr_name :: string
  fr_response :: json

record part =
  p_text :: "string option"
  p_function_call :: "function_call option"
  p_function_response :: "function_response option"

record content =
  role :: string
  parts :: "part list"

text \<open>
  The response of \<open>generate_content\<close>, by the content of each of its candidates. It has
  no attribute \<open>choices\<close>.
\<close>

record generate_content_response =
  candidates :: "content list"

record 't generate_content_config =
  cfg_system_instruction :: string
  cfg_temperature :: int
  cfg_tools :: "'t list"

type_synonym ('w, 't) gemini_model =
  "'w \<Rightarrow> content list \<Rightarrow> 't generate_content_config option
   \<Rightarrow> generate_content_response \<times> 'w"

record 'w gstate =
  g_world :: 'w
  contents :: "content list"
  g_trace :: "event list"

definition from_function_response :: "string \<Rightarrow> json \<Rightarrow> part" where
  "from_function_response name response =
     \<lparr>p_text = None, p_function_call = None,
      p_function_response = Some \<lparr>fr_name = name, fr_response = response\<rparr>\<rparr>"

definition text_part :: "string \<Rightarrow> part" where
  "text_part query = \<lparr>p_text = Some query, p_function_call = None, p_function_response = None\<rparr>"

text \<open>\<open>json.loads(fc.args) if type(fc.args) != dict else fc.args\<close>.\<close>

fun load_args :: "'w host \<Rightarrow> payload \<Rightarrow> string + json" where
  "load_args host (ArgsDict d) = Inr (JDict d)"
| "load_args host (ArgsText s) = json_loads host s"
| "load_args host ArgsNone =
     Inl ''the JSON object must be str, bytes or bytearray, not NoneType''"

text \<open>
  The \<open>try\<close> of the loop over the parts: it yields \<open>part_response\<close>. The host's error
  flag selects the key \<open>error\<close>; so does anything raised.
\<close>

definition google_call_tool :: "'w host \<Rightarrow> function_call \<Rightarrow> 'w gstate \<Rightarrow> json \<times> 'w gstate" where
  "google_call_tool host fc st =
     (case load_args host (fc_args fc) of
        Inl e \<Rightarrow> (JDict [(''error'', JStr (error_executing_tool e))], st)
      | Inr arguments \<Rightarrow>
          (case call_tool host (g_world st) (fc_name fc) arguments of
             (fc_response, w) \<Rightarrow>
               (let st = st\<lparr>g_world := w,
                            g_trace := g_trace st @ [HostCall (fc_name fc) arguments]\<rparr>
                in case fc_response of
                     Inl e \<Rightarrow> (JDict [(''error'', JStr (error_executing_tool e))], st)
                   | Inr fc_response \<Rightarrow>
                       (case join_text (ctr_content fc_response) [] of
                          Inl e \<Rightarrow> (JDict [(''error'', JStr (error_executing_tool e))], st)
                        | Inr fc_response_content \<Rightarrow>
                            (if isError fc_response
                             then (JDict [(''error'', JStr fc_response_content)], st)
                             else (JDict [(''result'', JStr fc_response_content)], st))))))"

text \<open>
  The loop over \<open>assistant_message.parts\<close>; the last argument is \<open>fc_parts_response\<close>.
\<close>

fun google_tool_calls ::
  "'w host \<Rightarrow> part list \<Rightarrow> 'w gstate \<Rightarrow> part list \<Rightarrow> 'w gstate \<times> part list" where
  "google_tool_calls host [] st fc_parts_response = (st, fc_parts_response)"
| "google_tool_calls host (p # rest) st fc_parts_response =
     (case p_function_call p of
        None \<Rightarrow> google_tool_calls host rest st fc_parts_response
      | Some fc \<Rightarrow>
          (case google_call_tool host fc st of
             (part_response, st) \<Rightarrow>
               google_tool_calls host rest st
                 (fc_parts_response @ [from_function_response (fc_name fc) part_response])))"

definition has_function_call :: "part \<Rightarrow> bool" where
  "has_function_call p = (p_function_call p \<noteq> None)"

text \<open>
  One round of tool calls: append the assistant's message, run the loop over its parts,
  and append the responses, if there are any, as one content of role \<open>function\<close>.
\<close>

definition google_iteration :: "'w host \<Rightarrow> content \<Rightarrow> 'w gstate \<Rightarrow> 'w gstate" where
  "google_iteration host assistant_message st =
     (let st = st\<lparr>contents := contents st @ [assistant_message]\<rparr>
      in case google_tool_calls host (parts assistant_message) st [] of
           (st, fc_parts_response) \<Rightarrow>
             if fc_parts_response \<noteq> []
             then st\<lparr>contents := contents st
                    @ [\<lparr>role = ''function'', parts = fc_parts_response\<rparr>]\<rparr>
             else st)"

text \<open>
  The \<open>while\<close> loop and the final call after it. \<open>response.candidates[0]\<close> and
  \<open>assistant_message.parts[0]\<close> raise \<open>IndexError\<close> on an empty list. The final call
  passes no configuration, and its result is read as
  \<open>final_response.choices[0].message.content\<close>.
\<close>

function google_loop ::
  "'w host \<Rightarrow> ('w, 't) gemini_model \<Rightarrow> 't list \<Rightarrow> int \<Rightarrow> int \<Rightarrow> 'w gstate
   \<Rightarrow> (py_error + string option) \<times> 'w gstate"
where
  "google_loop host generate_content tools max_iterations iteration_count st =
     (if iteration_count < max_iterations then
        (case generate_content (g_world st) (contents st)
                (Some \<lparr>cfg_system_instruction = google_system_instruction,
                       cfg_temperature = 0, cfg_tools = tools\<rparr>) of
           (response, w) \<Rightarrow>
             (let st = st\<lparr>g_world := w, g_trace := g_trace st @ [ModelCall True]\<rparr>
              in case candidates response of
                   [] \<Rightarrow> (Inl (IndexError ''list index out of range''), st)
                 | assistant_message # others \<Rightarrow>
                     if \<not> list_ex has_function_call (parts assistant_message) then
                       (case parts assistant_message of
                          [] \<Rightarrow> (Inl (IndexError ''list index out of range''), st)
                        | p # ps \<Rightarrow> (Inr (p_text p), st))
                     else
                       google_loop host generate_content tools max_iterations
                         (iteration_count + 1) (google_iteration host assistant_message st)))
      else
        (case generate_content (g_world st) (contents st) None of
           (final_response, w) \<Rightarrow>
             (Inl (AttributeError (no_attribute ''GenerateContentResponse'' ''choices'')),
              st\<lparr>g_world := w, g_trace := g_trace st @ [ModelCall False]\<rparr>)))"
  by pat_completeness auto
termination
  by (relation "measure (\<lambda>(host, generate_content, tools, max_iterations, iteration_count, st).
        nat (max_iterations - iteration_count))") auto

declare google_loop.simps [simp del]

text \<open>
  \<open>process_query\<close> first builds the tools; what \<open>get_mcp_tools\<close> raises leaves it
  before the conversation begins.
\<close>

definition google_process_query ::
  "'w host \<Rightarrow> (function_declaration list \<Rightarrow> py_error + 't) \<Rightarrow> ('w, 't) gemini_model
   \<Rightarrow> string \<Rightarrow> int \<Rightarrow> 'w \<Rightarrow> (py_error + string option) \<times> 'w gstate" where
  "google_process_query host types_Tool generate_content query max_iterations w0 =
     (case list_tools host w0 of
        (tools_result, w) \<Rightarrow>
          (case google_get_mcp_tools types_Tool tools_result of
             Inl e \<Rightarrow> (Inl e, \<lparr>g_world = w, contents = [], g_trace = []\<rparr>)
           | Inr tools \<Rightarrow>
               google_loop host generate_content tools max_iterations 0
                 \<lparr>g_world = w, contents = [\<lparr>role = ''user'', parts = [text_part query]\<rparr>],
                  g_trace = []\<rparr>))"

text \<open>The function calls of a message, in the order of its parts.\<close>

definition function_calls :: "part list \<Rightarrow> function_call list" where
  "function_calls ps = List.map_filter p_function_call ps"


text \<open>The host calls that a list of function calls leads to: one for each whose arguments load.\<close>

definition google_host_calls :: "'w host \<Rightarrow> function_call list \<Rightarrow> event list" where
  "google_host_calls host fcs =
     List.map_filter
       (\<lambda>fc. case load_args host (fc_args fc) of
                Inl e \<Rightarrow> None
              | Inr arguments \<Rightarrow> Some (HostCall (fc_name fc) arguments)) fcs"



section \<open>Examples: a tool, scripted hosts and models\<close>

text \<open>
  A tool with one optional list parameter, as a schema generator describes
  \<open>sort: Optional[List[tuple]] = None\<close>.
\<close>

definition sort_tool :: mcp_tool where
  "sort_tool =
     \<lparr>tool_name = ''get_users_by_city'', tool_description = Some ''Gets all the users in a city.'',
      inputSchema =
        JDict [(''type'', JStr ''object''),
               (''properties'',
                  JDict [(''sort'',
                     JDict [(''anyOf'',
                               JList [JDict [(''items'', JDict [(''type'', JStr ''array'')]),
                                             (''type'', JStr ''array'')],
                                      JDict [(''type'', JStr ''null'')]]),
                            (''default'', JNull),
                            (''title'', JStr ''Sort'')])]),
               (''additionalProperties'', JBool False)]\<rparr>"

text \<open>
  The world of the examples is the number of model calls made so far, so a model can
  follow a script. The host parses \<open>{}\<close> and nothing else, and answers every call with
  one line of text.
\<close>

definition example_host :: "nat host" where
  "example_host =
     \<lparr>json_loads = (\<lambda>s. if s = ''{}'' then Inr (JDict [])
                         else Inl ''Expecting property name enclosed in double quotes: line 1 column 2 (char 1)''),
      call_tool = (\<lambda>w name arguments.
                     (Inr \<lparr>ctr_content = [TextContent ''users''], isError = False\<rparr>, w)),
      list_tools = (\<lambda>w. ([], w))\<rparr>"

text \<open>A host that reports every call as failed, through the error flag of its result.\<close>

definition failing_host :: "bool \<Rightarrow> nat host" where
  "failing_host flag =
     \<lparr>json_loads = (\<lambda>s. Inr (JDict [])),
      call_tool = (\<lambda>w name arguments.
                     (Inr \<lparr>ctr_content = [TextContent ''Unknown tool''], isError = flag\<rparr>, w)),
      list_tools = (\<lambda>w. ([], w))\<rparr>"

definition collections_call :: tool_call where
  "collections_call =
     \<lparr>tc_id = ''call_1'', tc_name = ''get_mongodb_collections'', tc_arguments = ''{}''\<rparr>"

definition malformed_call :: tool_call where
  "malformed_call =
     \<lparr>tc_id = ''call_2'', tc_name = ''execute_mongodb_query'', tc_arguments = ''{query:''\<rparr>"

text \<open>A model that asks for the same tool on every call.\<close>

definition eager_openai :: "nat chat_model" where
  "eager_openai w msgs tools choice =
     (\<lparr>am_content = Some ''Still looking.'', am_tool_calls = Some [collections_call]\<rparr>, Suc w)"

text \<open>A model that asks for two tools at once, the second with malformed arguments, and then answers.\<close>

definition scripted_openai :: "nat chat_model" where
  "scripted_openai w msgs tools choice =
     (if w = 0
      then \<lparr>am_content = None, am_tool_calls = Some [collections_call, malformed_call]\<rparr>
      else \<lparr>am_content = Some ''Found 3 users'', am_tool_calls = None\<rparr>,
      Suc w)"

definition collections_fc :: function_call where
  "collections_fc = \<lparr>fc_name = ''get_mongodb_collections'', fc_args = ArgsDict []\<rparr>"

definition malformed_fc :: function_call where
  "malformed_fc = \<lparr>fc_name = ''execute_mongodb_query'', fc_args = ArgsText ''{query:''\<rparr>"

definition call_part :: "function_call \<Rightarrow> part" where
  "call_part fc = \<lparr>p_text = None, p_function_call = Some fc, p_function_response = None\<rparr>"

definition model_says :: "part list \<Rightarrow> generate_content_response" where
  "model_says ps = \<lparr>candidates = [\<lparr>role = ''model'', parts = ps\<rparr>]\<rparr>"

definition eager_gemini :: "(nat, function_declaration list) gemini_model" where
  "eager_gemini w cs config = (model_says [call_part collections_fc], Suc w)"

definition scripted_gemini :: "(nat, function_declaration list) gemini_model" where
  "scripted_gemini w cs config =
     (if w = 0 then model_says [call_part collections_fc, call_part malformed_fc]
      else model_says [text_part ''Found 3 users''],
      Suc w)"

text \<open>A model whose answer has no parts, and one whose answer comes in two text parts.\<close>

definition empty_gemini :: "(nat, function_declaration list) gemini_model" where
  "empty_gemini w cs config = (model_says [], Suc w)"

definition two_part_gemini :: "(nat, function_declaration list) gemini_model" where
  "two_part_gemini w cs config = (model_says [text_part ''Found 3 '', text_part ''users''], Suc w)"

definition empty_ostate :: "nat ostate" where
  "empty_ostate = \<lparr>o_world = 0, messages = [], o_trace = []\<rparr>"

definition empty_gstate :: "nat gstate" where
  "empty_gstate = \<lparr>g_world = 0, contents = [], g_trace = []\<rparr>"

text \<open>A constructor that accepts whatever declarations it is given.\<close>

definition accepting_Tool :: "function_declaration list \<Rightarrow> py_error + function_declaration list" where
  "accepting_Tool tools = Inr tools"

section \<open>The normalized schema\<close>

lemma stripped_items_update:
  "stripped_items c \<Longrightarrow> k \<notin> unsupported_fields \<Longrightarrow> \<not> is_union_key k \<Longrightarrow> stripped v
   \<Longrightarrow> stripped_items (AList.update k v c)"
  by (induction c) auto

lemma first_non_null_cases:
  "first_non_null v = Inr (Some opt) \<Longrightarrow> \<exists>xs. v = JList xs \<and> opt \<in> set xs \<and> is_non_null_dict opt"
  by (cases v) (auto simp: first_non_null_def find_Some_iff)

lemma is_non_null_dict_is_dict: "is_non_null_dict v \<Longrightarrow> is_dict v"
  by (cases v) auto

lemma first_non_null_is_dict: "first_non_null v = Inr (Some opt) \<Longrightarrow> is_dict opt"
  using first_non_null_cases is_non_null_dict_is_dict by blast

lemma clean_stripped:
  "(\<forall>r. clean_schema_recursive v = Inr r \<longrightarrow> stripped r)"
  "(\<forall>r. stripped_items c \<longrightarrow> clean_items kvs c = Inr r \<longrightarrow> stripped r)"
  "(\<forall>ys. clean_list xs = Inr ys \<longrightarrow> stripped_list ys)"
proof (induction v and kvs c and xs rule: clean_schema_recursive_clean_items_clean_list.induct)
  case (8 key v rest cleaned)
  then show ?case
    by (auto simp: stripped_items_update split: sum.splits option.splits if_splits)
qed (auto split: sum.splits)

lemma clean_is_dict:
  "(\<forall>r. is_dict v \<longrightarrow> clean_schema_recursive v = Inr r \<longrightarrow> is_dict r)"
  "(\<forall>r. clean_items kvs c = Inr r \<longrightarrow> is_dict r)"
  "(\<forall>ys. clean_list xs = Inr ys \<longrightarrow> length ys = length ys)"
proof (induction v and kvs c and xs rule: clean_schema_recursive_clean_items_clean_list.induct)
  case (8 key v rest cleaned)
  then show ?case
    by (auto split: sum.splits option.splits if_splits simp: first_non_null_is_dict)
qed simp_all

lemma iterable_unions_member: "iterable_unions_list xs \<Longrightarrow> x \<in> set xs \<Longrightarrow> iterable_unions x"
  by (induction xs) auto

lemma clean_total:
  "(iterable_unions v \<longrightarrow> (\<exists>r. clean_schema_recursive v = Inr r))"
  "(iterable_unions_items kvs \<longrightarrow> (\<exists>r. clean_items kvs c = Inr r))"
  "(iterable_unions_list xs \<longrightarrow> (\<exists>ys. clean_list xs = Inr ys))"
proof (induction v and kvs c and xs rule: clean_schema_recursive_clean_items_clean_list.induct)
  case (8 key v rest cleaned)
  show ?case
  proof (intro impI)
    assume it: "iterable_unions_items ((key, v) # rest)"
    show "\<exists>r. clean_items ((key, v) # rest) cleaned = Inr r"
    proof (cases "key \<in> unsupported_fields")
      case True
      with 8 it show ?thesis by simp
    next
      case False
      note nu = this
      show ?thesis
      proof (cases "is_union_key key")
        case True
        with it have "is_iterable v" by simp
        then obtain o' where fn: "first_non_null v = Inr o'"
          by (auto simp: is_iterable_def first_non_null_def split: sum.splits)
        show ?thesis
        proof (cases o')
          case None
          with 8 it nu True fn show ?thesis by simp
        next
          case (Some opt)
          with fn obtain xs where "v = JList xs" "opt \<in> set xs"
            by (auto dest: first_non_null_cases)
          with it have "iterable_unions opt"
            by (auto dest: iterable_unions_member)
          with 8 nu True fn Some show ?thesis by simp
        qed
      next
        case False
        from it have "iterable_unions v" by simp
        with 8 nu False obtain v' where v': "clean_schema_recursive v = Inr v'" by auto
        with 8(5)[OF nu False v'] it nu False show ?thesis by simp
      qed
    qed
  qed
qed (auto split: sum.splits)

lemma keep_supported_top_level:
  "list_all (\<lambda>kv. fst kv \<in> supported_fields) acc
   \<Longrightarrow> list_all (\<lambda>kv. fst kv \<in> supported_fields) (keep_supported kvs acc)"
proof (induction kvs acc rule: keep_supported.induct)
  case (2 k v rest parameters)
  have "k \<in> supported_fields \<Longrightarrow>
        list_all (\<lambda>kv. fst kv \<in> supported_fields) (AList.update k v parameters)"
    using 2(3) by (induction parameters) auto
  with 2 show ?case by simp
qed simp

lemma keep_supported_stripped:
  "stripped_items acc \<Longrightarrow> stripped_items kvs \<Longrightarrow> stripped_items (keep_supported kvs acc)"
  by (induction kvs acc rule: keep_supported.induct) (auto simp: stripped_items_update)

lemma google_parameters_normalized:
  assumes "is_dict schema" and "iterable_unions schema"
  shows "\<exists>p. google_parameters schema = Inr p \<and> top_level_supported p \<and> stripped p"
proof -
  from assms(2) obtain r where r: "clean_schema_recursive schema = Inr r"
    using clean_total(1) by blast
  with assms(1) have "is_dict r" using clean_is_dict(1) by blast
  then obtain cleaned where c: "r = JDict cleaned" by (cases r) auto
  from r have "stripped r" using clean_stripped(1) by blast
  with c have "stripped_items cleaned" by simp
  then have "stripped (JDict (keep_supported cleaned []))"
    by (simp add: keep_supported_stripped)
  moreover have "top_level_supported (JDict (keep_supported cleaned []))"
    by (simp add: keep_supported_top_level)
  ultimately show ?thesis
    using r c by (simp add: google_parameters_def)
qed

section \<open>The code computes the normalization of the specification\<close>

lemma update_fresh:
  "k \<notin> fst ` set c \<Longrightarrow> AList.update k v c = c @ [(k, v)]"
  by (induction c) auto

lemma unsupported_not_union: "k \<in> unsupported_fields \<Longrightarrow> \<not> is_union_key k"
  by (auto simp: unsupported_fields_def is_union_key_def)

lemma distinct_keys_member: "distinct_keys_list xs \<Longrightarrow> x \<in> set xs \<Longrightarrow> distinct_keys x"
  by (induction xs) auto

lemma first_non_null_None:
  "first_non_null v = Inr None \<Longrightarrow>
     (case v of JList alternatives \<Rightarrow> find is_non_null_dict alternatives = None | _ \<Rightarrow> True)"
  by (cases v) (auto simp: first_non_null_def)

lemma clean_refines:
  "(distinct_keys v \<and> iterable_unions v
      \<longrightarrow> clean_schema_recursive v = Inr (normalized_schema v))"
  "(distinct_keys_items kvs \<and> distinct (map fst kvs) \<and> iterable_unions_items kvs
      \<and> fst ` set c \<inter> fst ` set kvs = {}
      \<longrightarrow> clean_items kvs c =
            Inr (case first_branch kvs of
                   Some branch \<Rightarrow> normalized_schema branch
                 | None \<Rightarrow> JDict (c @ normalized_fields kvs)))"
  "(distinct_keys_list xs \<and> iterable_unions_list xs
      \<longrightarrow> clean_list xs = Inr (normalized_list xs))"
proof (induction v and kvs c and xs rule: clean_schema_recursive_clean_items_clean_list.induct)
  case (1 kvs)
  then show ?case by (auto split: option.splits)
next
  case (8 key v rest cleaned)
  show ?case
  proof (intro impI)
    assume a: "distinct_keys_items ((key, v) # rest) \<and> distinct (map fst ((key, v) # rest))
        \<and> iterable_unions_items ((key, v) # rest)
        \<and> fst ` set cleaned \<inter> fst ` set ((key, v) # rest) = {}"
    then have dv: "distinct_keys v" and dr: "distinct_keys_items rest"
      and nr: "key \<notin> fst ` set rest" and ds: "distinct (map fst rest)"
      and iv: "iterable_unions v" and ir: "iterable_unions_items rest"
      and kc: "key \<notin> fst ` set cleaned" and cr: "fst ` set cleaned \<inter> fst ` set rest = {}"
      by auto
    show "clean_items ((key, v) # rest) cleaned =
            Inr (case first_branch ((key, v) # rest) of
                   Some branch \<Rightarrow> normalized_schema branch
                 | None \<Rightarrow> JDict (cleaned @ normalized_fields ((key, v) # rest)))"
    proof (cases "key \<in> unsupported_fields")
      case True
      with 8(1) dr ds ir cr unsupported_not_union [OF True] show ?thesis by (simp split: option.splits)
    next
      case False
      note nu = this
      show ?thesis
      proof (cases "is_union_key key")
        case True
        with a have "is_iterable v" by simp
        then obtain o' where fn: "first_non_null v = Inr o'"
          by (auto simp: is_iterable_def first_non_null_def split: sum.splits)
        show ?thesis
        proof (cases o')
          case None
          with fn have "case v of JList alternatives \<Rightarrow> find is_non_null_dict alternatives = None
                        | _ \<Rightarrow> True"
            using first_non_null_None by blast
          then have fb: "first_branch ((key, v) # rest) = first_branch rest"
            using True by (cases v) auto
          from 8(2) [OF nu True fn None] dr ds ir cr
          have "clean_items rest cleaned =
                  Inr (case first_branch rest of
                         Some branch \<Rightarrow> normalized_schema branch
                       | None \<Rightarrow> JDict (cleaned @ normalized_fields rest))"
            by simp
          with nu True fn None fb show ?thesis by (simp split: option.splits)
        next
          case (Some opt)
          with fn obtain alternatives where v: "v = JList alternatives"
            and m: "opt \<in> set alternatives" and f: "find is_non_null_dict alternatives = Some opt"
            by (cases v) (auto simp: first_non_null_def find_Some_iff)
          from v dv iv m have "distinct_keys opt" "iterable_unions opt"
            by (auto dest: distinct_keys_member iterable_unions_member)
          with 8(3) [OF nu True fn Some]
          have "clean_schema_recursive opt = Inr (normalized_schema opt)" by simp
          moreover have "first_branch ((key, v) # rest) = Some opt"
            using True v f by simp
          ultimately show ?thesis using nu True fn Some by simp
        qed
      next
        case False
        from 8(4) [OF nu False] dv iv
        have cv: "clean_schema_recursive v = Inr (normalized_schema v)" by simp
        have u: "AList.update key (normalized_schema v) cleaned
                   = cleaned @ [(key, normalized_schema v)]"
          using kc by (rule update_fresh)
        have "fst ` set (cleaned @ [(key, normalized_schema v)]) \<inter> fst ` set rest = {}"
          using cr nr by auto
        with 8(5) [OF nu False cv] dr ds ir u
        have "clean_items rest (AList.update key (normalized_schema v) cleaned) =
                Inr (case first_branch rest of
                       Some branch \<Rightarrow> normalized_schema branch
                     | None \<Rightarrow> JDict ((cleaned @ [(key, normalized_schema v)])
                                        @ normalized_fields rest))"
          by (simp split: option.splits)
        with nu False cv show ?thesis by (simp split: option.splits)
      qed
    qed
  qed
qed simp_all

lemma first_branch_is_dict: "first_branch kvs = Some branch \<Longrightarrow> is_dict branch"
  using first_branch_cases [of kvs branch]
  by (auto simp: find_Some_iff dest: is_non_null_dict_is_dict)

lemma first_branch_distinct:
  "first_branch kvs = Some branch \<Longrightarrow> distinct_keys_items kvs \<Longrightarrow> distinct_keys branch"
proof (induction kvs)
  case Nil
  then show ?case by simp
next
  case (Cons kv kvs)
  obtain k v where kv: "kv = (k, v)" by (cases kv)
  show ?case
  proof (cases "first_branch kvs = Some branch")
    case True
    with Cons kv show ?thesis by simp
  next
    case False
    with Cons.prems(1) kv obtain alternatives where
      v: "v = JList alternatives" and f: "find is_non_null_dict alternatives = Some branch"
      by (auto split: if_splits json.splits option.splits)
    from f have "branch \<in> set alternatives" by (auto simp: find_Some_iff)
    with Cons.prems(2) kv v show ?thesis by (auto dest: distinct_keys_member)
  qed
qed

lemma normalized_fields_keys:
  "map fst (normalized_fields kvs)
     = filter (\<lambda>k. \<not> (k \<in> unsupported_fields \<or> is_union_key k)) (map fst kvs)"
  by (induction kvs) auto

lemma normalized_schema_dict:
  "(is_dict v \<and> distinct_keys v
      \<longrightarrow> is_dict (normalized_schema v) \<and> distinct (map fst (fields_of (normalized_schema v))))"
  "length (normalized_fields kvs) = length (normalized_fields kvs)"
  "length (normalized_list xs) = length (normalized_list xs)"
proof (induction v and kvs and xs rule: normalized_schema_normalized_fields_normalized_list.induct)
  case (1 kvs)
  show ?case
  proof (cases "first_branch kvs")
    case None
    then show ?thesis by (simp add: normalized_fields_keys)
  next
    case (Some branch)
    with 1(2) [OF Some] first_branch_is_dict [OF Some] first_branch_distinct [OF Some]
    show ?thesis by simp
  qed
qed simp_all

lemma keep_supported_filter:
  "distinct (map fst (acc @ kvs)) \<Longrightarrow>
     keep_supported kvs acc = acc @ filter (\<lambda>kv. fst kv \<in> supported_fields) kvs"
proof (induction kvs acc rule: keep_supported.induct)
  case (1 parameters)
  then show ?case by simp
next
  case (2 k v rest parameters)
  show ?case
  proof (cases "k \<in> supported_fields")
    case True
    from 2(3) have "k \<notin> fst ` set parameters" by auto
    then have u: "AList.update k v parameters = parameters @ [(k, v)]" by (rule update_fresh)
    from 2(3) have "distinct (map fst ((parameters @ [(k, v)]) @ rest))" by simp
    with 2(1) [OF True] u True show ?thesis by simp
  next
    case False
    from 2(3) have "distinct (map fst (parameters @ rest))" by auto
    with 2(2) [OF False] False show ?thesis by simp
  qed
qed

lemma google_parameters_refines:
  assumes "is_dict schema" and "distinct_keys schema" and "iterable_unions schema"
  shows "google_parameters schema = Inr (normalized_parameters schema)"
proof -
  from assms have c: "clean_schema_recursive schema = Inr (normalized_schema schema)"
    using clean_refines(1) by blast
  from assms have "is_dict (normalized_schema schema)"
    and d: "distinct (map fst (fields_of (normalized_schema schema)))"
    using normalized_schema_dict(1) by blast+
  then obtain fields where f: "normalized_schema schema = JDict fields"
    by (cases "normalized_schema schema") auto
  with d have "keep_supported fields [] = filter (\<lambda>kv. fst kv \<in> supported_fields) fields"
    using keep_supported_filter [of "[]" fields] by simp
  with c f show ?thesis
    by (simp add: google_parameters_def normalized_parameters_def)
qed

lemma google_declarations_refines:
  assumes "list_all (\<lambda>t. is_dict (inputSchema t) \<and> distinct_keys (inputSchema t)
                          \<and> iterable_unions (inputSchema t)) tools"
  shows "google_declarations tools = Inr (map normalized_declaration tools)"
  using assms
  by (induction tools) (simp_all add: google_parameters_refines normalized_declaration_def)

lemma normalized_parameters_absent:
  assumes "is_dict schema" and "distinct_keys schema" and "iterable_unions schema"
  shows "top_level_supported (normalized_parameters schema)"
    and "stripped (normalized_parameters schema)"
proof -
  from google_parameters_normalized [OF assms(1) assms(3)]
    google_parameters_refines [OF assms]
  show "top_level_supported (normalized_parameters schema)"
    and "stripped (normalized_parameters schema)"
    by auto
qed

text \<open>A schema that holds none of the keys to drop or resolve is its own normalization.\<close>

lemma normalized_schema_id:
  "(stripped v \<longrightarrow> normalized_schema v = v)"
  "(stripped_items kvs \<longrightarrow> normalized_fields kvs = kvs \<and> first_branch kvs = None)"
  "(stripped_list xs \<longrightarrow> normalized_list xs = xs)"
  by (induction v and kvs and xs rule: stripped_stripped_items_stripped_list.induct) auto

text \<open>
  Claim C2, as amended. For a catalog whose schemas are dicts in which every value under
  \<open>any_of\<close>/\<open>anyOf\<close> can be iterated, the Gemini adapter builds one declaration per
  tool, in the catalog's order, with the tool's name and description and with the
  parameters that the specification's normalization yields: the normalized schema, cut
  down at its top level to the supported fields. It hands these declarations to
  \<open>types.Tool\<close> and returns the one tool object made of them, or raises what the
  constructor raises. So the parameters have only supported fields at the top level and,
  in every dict at every depth, none of the keys that the walk drops or resolves; below
  the top level every other key of a node is kept, unless the node holds a union that is
  resolved: then the node, with all its keys, gives way to the normalized branch. The
  OpenAI adapter hands every schema on unchanged.
\<close>

theorem get_mcp_tools_normalization:
  assumes "list_all (\<lambda>t. is_dict (inputSchema t) \<and> distinct_keys (inputSchema t)
                          \<and> iterable_unions (inputSchema t)) tools"
  shows "google_get_mcp_tools types_Tool tools
           = (case types_Tool (map normalized_declaration tools) of
                Inl e \<Rightarrow> Inl e
              | Inr tool \<Rightarrow> Inr [tool])
         \<and> list_all (\<lambda>t. top_level_supported (normalized_parameters (inputSchema t))
                         \<and> stripped (normalized_parameters (inputSchema t))) tools
         \<and> map openai_parameters (openai_get_mcp_tools tools)
             = map (\<lambda>t. Some (inputSchema t)) tools"
proof (intro conjI)
  show "google_get_mcp_tools types_Tool tools
           = (case types_Tool (map normalized_declaration tools) of
                Inl e \<Rightarrow> Inl e
              | Inr tool \<Rightarrow> Inr [tool])"
    using google_declarations_refines [OF assms] by (simp add: google_get_mcp_tools_def)
  show "list_all (\<lambda>t. top_level_supported (normalized_parameters (inputSchema t))
                         \<and> stripped (normalized_parameters (inputSchema t))) tools"
    using assms by (induction tools) (simp_all add: normalized_parameters_absent)
  show "map openai_parameters (openai_get_mcp_tools tools) = map (\<lambda>t. Some (inputSchema t)) tools"
    by (simp add: openai_get_mcp_tools_def openai_tool_def)
qed

text \<open>
  Claim C2 as first stated fails: the whitelist is applied to the top level only. The
  schema of an optional list parameter keeps its \<open>items\<close> field below the top level in
  the Gemini adapter (with a constructor that accepts the declarations), and the OpenAI
  adapter keeps even \<open>additionalProperties\<close>.
\<close>

theorem whitelist_top_level_only:
  "google_get_mcp_tools accepting_Tool [sort_tool] =
     (Inr [[\<lparr>fd_name = ''get_users_by_city'', fd_description = Some ''Gets all the users in a city.'',
           fd_parameters =
             JDict [(''type'', JStr ''object''),
                    (''properties'',
                       JDict [(''sort'',
                          JDict [(''items'', JDict [(''type'', JStr ''array'')]),
                                 (''type'', JStr ''array'')])])]\<rparr>]]
      :: py_error + function_declaration list list)
   \<and> \<not> whitelisted
         (JDict [(''type'', JStr ''object''),
                    (''properties'',
                       JDict [(''sort'',
                          JDict [(''items'', JDict [(''type'', JStr ''array'')]),
                                 (''type'', JStr ''array'')])])])
   \<and> map openai_parameters (openai_get_mcp_tools [sort_tool]) = [Some (inputSchema sort_tool)]
   \<and> \<not> whitelisted (inputSchema sort_tool)"
  by (simp add: sort_tool_def google_get_mcp_tools_def accepting_Tool_def google_parameters_def first_non_null_def
      unsupported_fields_def is_union_key_def supported_fields_def openai_get_mcp_tools_def
      openai_tool_def)

text \<open>
  The hypothesis of C2's theorem holds for that catalog, and the normalization of its
  schema is what the adapter was seen to build: \<open>items\<close> kept, the union's node
  (with \<open>default\<close> and \<open>title\<close>) replaced by its branch.
\<close>

theorem get_mcp_tools_normalization_witness:
  "list_all (\<lambda>t. is_dict (inputSchema t) \<and> distinct_keys (inputSchema t)
                          \<and> iterable_unions (inputSchema t)) [sort_tool]
   \<and> google_get_mcp_tools accepting_Tool [sort_tool]
       = Inr [map normalized_declaration [sort_tool]]
   \<and> normalized_parameters (inputSchema sort_tool)
       = JDict [(''type'', JStr ''object''),
                (''properties'',
                   JDict [(''sort'',
                      JDict [(''items'', JDict [(''type'', JStr ''array'')]),
                             (''type'', JStr ''array'')])])]
   \<and> map openai_parameters (openai_get_mcp_tools [sort_tool]) = [Some (inputSchema sort_tool)]"
proof -
  have h: "list_all (\<lambda>t. is_dict (inputSchema t) \<and> distinct_keys (inputSchema t)
                          \<and> iterable_unions (inputSchema t)) [sort_tool]"
    by (simp add: sort_tool_def is_iterable_def is_union_key_def)
  have n: "normalized_parameters (inputSchema sort_tool)
       = JDict [(''type'', JStr ''object''),
                (''properties'',
                   JDict [(''sort'',
                      JDict [(''items'', JDict [(''type'', JStr ''array'')]),
                             (''type'', JStr ''array'')])])]"
    by (simp add: sort_tool_def normalized_parameters_def unsupported_fields_def is_union_key_def
        supported_fields_def)
  from get_mcp_tools_normalization
    [OF h, of accepting_Tool]
  show ?thesis using h n by (simp add: accepting_Tool_def)
qed

section \<open>Nullable unions\<close>

lemma iterable_unions_items_append:
  "iterable_unions_items (xs @ ys) = (iterable_unions_items xs \<and> iterable_unions_items ys)"
  by (induction xs) auto

lemma first_branch_append:
  "list_all (\<lambda>kv. \<not> is_union_key (fst kv)) before \<Longrightarrow>
     first_branch (before @ rest) = first_branch rest"
  by (induction before) auto

text \<open>
  Claim C6. A schema node whose first union entry (\<open>anyOf\<close> or \<open>any_of\<close>) lists a
  non-null dict alternative is replaced, as a whole, by the cleaned schema of the first
  such alternative: cleaning the node returns exactly what cleaning that alternative
  returns, namely the alternative's normalization as the specification words it (every
  key of the alternative kept with its value normalized, except the dropped keys and the
  unions, which are resolved in turn). The result is a dict with no union key and no
  dropped key at any depth; an alternative that holds no such key is returned as it is.
  The schema is a Python value (each dict holds each key once) in which every value
  under a union key can be iterated, as a list of alternatives can.
\<close>

theorem nullable_union_resolved:
  assumes "distinct_keys (JDict (before @ (k, JList alternatives) # after))"
    and "iterable_unions (JDict (before @ (k, JList alternatives) # after))"
    and "list_all (\<lambda>kv. \<not> is_union_key (fst kv)) before"
    and "is_union_key k"
    and "find is_non_null_dict alternatives = Some branch"
  shows "clean_schema_recursive (JDict (before @ (k, JList alternatives) # after))
           = Inr (normalized_schema branch)
       \<and> clean_schema_recursive branch = Inr (normalized_schema branch)
       \<and> is_dict (normalized_schema branch)
       \<and> stripped (normalized_schema branch)
       \<and> (stripped branch \<longrightarrow> normalized_schema branch = branch)"
proof -
  let ?node = "JDict (before @ (k, JList alternatives) # after)"
  have fb: "first_branch (before @ (k, JList alternatives) # after) = Some branch"
    using first_branch_append [OF assms(3)] assms(4) assms(5) by simp
  then have n: "normalized_schema ?node = normalized_schema branch" by simp
  from assms(1) assms(2) have c: "clean_schema_recursive ?node = Inr (normalized_schema ?node)"
    using clean_refines(1) by blast
  from assms(5) have mem: "branch \<in> set alternatives" and nn: "is_non_null_dict branch"
    by (auto simp: find_Some_iff)
  from assms(1) have "distinct_keys_items (before @ (k, JList alternatives) # after)" by simp
  with fb have db: "distinct_keys branch" by (rule first_branch_distinct)
  from assms(2) have "iterable_unions_list alternatives"
    by (simp add: iterable_unions_items_append)
  with mem have ib: "iterable_unions branch" by (rule iterable_unions_member [rotated])
  from db ib have cb: "clean_schema_recursive branch = Inr (normalized_schema branch)"
    using clean_refines(1) by blast
  from nn have "is_dict branch" by (rule is_non_null_dict_is_dict)
  with cb have d: "is_dict (normalized_schema branch)" using clean_is_dict(1) by blast
  from cb have s: "stripped (normalized_schema branch)" using clean_stripped(1) by blast
  show ?thesis
    using c n cb d s normalized_schema_id(1) [of branch] by simp
qed

text \<open>
  An optional string field, as a schema generator writes it: the node's own \<open>title\<close> and
  \<open>default\<close> go, the branch's \<open>type\<close> and \<open>format\<close> stay, its \<open>examples\<close> are dropped.
\<close>

theorem nullable_union_resolved_witness:
  "distinct_keys (JDict ([(''title'', JStr ''Email'')]
       @ (''anyOf'', JList [JDict [(''type'', JStr ''null'')],
                            JDict [(''type'', JStr ''string''), (''format'', JStr ''email''),
                                   (''examples'', JList [JStr ''a@b.in''])]])
       # [(''default'', JNull)]))
   \<and> iterable_unions (JDict ([(''title'', JStr ''Email'')]
       @ (''anyOf'', JList [JDict [(''type'', JStr ''null'')],
                            JDict [(''type'', JStr ''string''), (''format'', JStr ''email''),
                                   (''examples'', JList [JStr ''a@b.in''])]])
       # [(''default'', JNull)]))
   \<and> clean_schema_recursive (JDict ([(''title'', JStr ''Email'')]
       @ (''anyOf'', JList [JDict [(''type'', JStr ''null'')],
                            JDict [(''type'', JStr ''string''), (''format'', JStr ''email''),
                                   (''examples'', JList [JStr ''a@b.in''])]])
       # [(''default'', JNull)]))
       = Inr (JDict [(''type'', JStr ''string''), (''format'', JStr ''email'')])
   \<and> normalized_schema (JDict [(''type'', JStr ''string''), (''format'', JStr ''email''),
                               (''examples'', JList [JStr ''a@b.in''])])
       = JDict [(''type'', JStr ''string''), (''format'', JStr ''email'')]"
proof -
  let ?branch = "JDict [(''type'', JStr ''string''), (''format'', JStr ''email''),
                        (''examples'', JList [JStr ''a@b.in''])]"
  let ?alts = "[JDict [(''type'', JStr ''null'')], ?branch]"
  have h1: "distinct_keys (JDict ([(''title'', JStr ''Email'')]
       @ (''anyOf'', JList ?alts) # [(''default'', JNull)]))"
    by simp
  have h2: "iterable_unions (JDict ([(''title'', JStr ''Email'')]
       @ (''anyOf'', JList ?alts) # [(''default'', JNull)]))"
    by (simp add: is_iterable_def is_union_key_def)
  have h3: "list_all (\<lambda>kv. \<not> is_union_key (fst kv)) [(''title'', JStr ''Email'')]"
    by (simp add: is_union_key_def)
  have h4: "is_union_key ''anyOf''" by (simp add: is_union_key_def)
  have h5: "find is_non_null_dict ?alts = Some ?branch"
    by simp
  have e: "normalized_schema ?branch
             = JDict [(''type'', JStr ''string''), (''format'', JStr ''email'')]"
    by (simp add: unsupported_fields_def is_union_key_def)
  from nullable_union_resolved [OF h1 h2 h3 h4 h5] h1 h2 e show ?thesis by simp
qed

section \<open>ObjectId conversion\<close>

lemma convert_objectids_converted:
  "converted str (v :: ('o, 'a) bson) (convert_objectids str v)"
  "converted_list str (vs :: ('o, 'a) bson list) (convert_objectids_list str vs)"
  "converted_items str (kvs :: (string \<times> ('o, 'a) bson) list) (convert_objectids_items str kvs)"
  by (induction str v and str vs and str kvs
      rule: convert_objectids_convert_objectids_list_convert_objectids_items.induct) simp_all

lemma convert_objectids_clean:
  "\<not> has_objectid (convert_objectids str (v :: ('o, 'a) bson))"
  "\<not> has_objectid_list (convert_objectids_list str (vs :: ('o, 'a) bson list))"
  "\<not> has_objectid_items (convert_objectids_items str (kvs :: (string \<times> ('o, 'a) bson) list))"
  by (induction str v and str vs and str kvs
      rule: convert_objectids_convert_objectids_list_convert_objectids_items.induct) simp_all

text \<open>The relation leaves no choice: it describes the conversion's result and nothing else.\<close>

lemma converted_unique:
  "(\<forall>b. converted str (v :: ('o, 'a) bson) b \<longrightarrow> b = convert_objectids str v)"
  "(\<forall>bs. converted_list str (vs :: ('o, 'a) bson list) bs \<longrightarrow> bs = convert_objectids_list str vs)"
  "(\<forall>kvs'. converted_items str (kvs :: (string \<times> ('o, 'a) bson) list) kvs'
      \<longrightarrow> kvs' = convert_objectids_items str kvs)"
  by (induction str v and str vs and str kvs
      rule: convert_objectids_convert_objectids_list_convert_objectids_items.induct)
     (auto split: bson.splits list.splits)

text \<open>A value without ObjectIds is returned as it is.\<close>

lemma convert_objectids_id:
  "(\<not> has_objectid (v :: ('o, 'a) bson) \<longrightarrow> convert_objectids str v = v)"
  "(\<not> has_objectid_list (vs :: ('o, 'a) bson list) \<longrightarrow> convert_objectids_list str vs = vs)"
  "(\<not> has_objectid_items (kvs :: (string \<times> ('o, 'a) bson) list)
      \<longrightarrow> convert_objectids_items str kvs = kvs)"
  by (induction str v and str vs and str kvs
      rule: convert_objectids_convert_objectids_list_convert_objectids_items.induct) simp_all

text \<open>
  Claim C9. For every value, \<open>convert_objectids\<close> returns the value with every ObjectId
  replaced by its string form and all else unchanged (dict keys, list order, nesting,
  the other leaves), so its result holds no ObjectId; and every list that a query tool
  returns is such a result.
\<close>

theorem convert_objectids_correct:
  "converted str v (convert_objectids str v)
   \<and> \<not> has_objectid (convert_objectids str v)
   \<and> (\<forall>r. execute_mongodb_query db str query collection_name database_name connection_string
              projection limit sort_by = Inr r \<longrightarrow> \<not> has_objectid r)
   \<and> (\<forall>r. get_users_by_city db str environ city projection limit sort_by = Inr r
           \<longrightarrow> \<not> has_objectid r)
   \<and> (\<forall>r. get_mongodb_sample_documents db str environ database_name collection_name n = Inr r
           \<longrightarrow> \<not> has_objectid r)"
proof (intro conjI allI impI)
  show "converted str v (convert_objectids str v)"
    by (rule convert_objectids_converted(1))
  show "\<not> has_objectid (convert_objectids str v)"
    by (rule convert_objectids_clean(1))
next
  fix r
  assume "execute_mongodb_query db str query collection_name database_name connection_string
              projection limit sort_by = Inr r"
  then obtain results where "r = convert_objectids str (BList results)"
    by (auto simp: execute_mongodb_query_def Let_def split: sum.splits)
  then show "\<not> has_objectid r"
    using convert_objectids_clean(1) [of str "BList results"] by simp
next
  fix r
  assume "get_users_by_city db str environ city projection limit sort_by = Inr r"
  then obtain results where "r = convert_objectids str (BList results)"
    by (auto simp: get_users_by_city_def Let_def split: sum.splits option.splits)
  then show "\<not> has_objectid r"
    using convert_objectids_clean(1) [of str "BList results"] by simp
next
  fix r
  assume "get_mongodb_sample_documents db str environ database_name collection_name n = Inr r"
  then obtain results where "r = convert_objectids str (BList results)"
    by (auto simp: get_mongodb_sample_documents_def split: sum.splits option.splits)
  then show "\<not> has_objectid r"
    using convert_objectids_clean(1) [of str "BList results"] by simp
qed

text \<open>The three example users, queried without a limit.\<close>

theorem convert_objectids_correct_witness:
  "execute_mongodb_query example_db example_str (JDict []) ''users'' ''UsersDB'' ''mongodb://db''
       None None None =
     Inr (BList
       [BDict [(''_id'', BStr ''65f1a0''), (''name'', BStr ''Asha''),
               (''address'', BDict [(''city'', BStr ''Bangalore'')])],
        BDict [(''_id'', BStr ''65f1a1''), (''name'', BStr ''Ravi''),
               (''friends'', BList [BStr ''65f1a0'', BStr ''65f1a2''])],
        BDict [(''_id'', BStr ''65f1a2''), (''name'', BStr ''Meena''), (''age'', BInt 31)]])
   \<and> \<not> has_objectid (BList
       [BDict [(''_id'', BStr ''65f1a0''), (''name'', BStr ''Asha''),
               (''address'', BDict [(''city'', BStr ''Bangalore'')])],
        BDict [(''_id'', BStr ''65f1a1''), (''name'', BStr ''Ravi''),
               (''friends'', BList [BStr ''65f1a0'', BStr ''65f1a2''])],
        BDict [(''_id'', BStr ''65f1a2''), (''name'', BStr ''Meena''), (''age'', BInt 31)]]
       :: (string, unit) bson)
   \<and> converted example_str (BList example_users) (convert_objectids example_str (BList example_users))"
proof -
  have e: "execute_mongodb_query example_db example_str (JDict []) ''users'' ''UsersDB'' ''mongodb://db''
       None None None =
     Inr (BList
       [BDict [(''_id'', BStr ''65f1a0''), (''name'', BStr ''Asha''),
               (''address'', BDict [(''city'', BStr ''Bangalore'')])],
        BDict [(''_id'', BStr ''65f1a1''), (''name'', BStr ''Ravi''),
               (''friends'', BList [BStr ''65f1a0'', BStr ''65f1a2''])],
        BDict [(''_id'', BStr ''65f1a2''), (''name'', BStr ''Meena''), (''age'', BInt 31)]])"
    by (simp add: execute_mongodb_query_def apply_sort_limit_def example_db_def example_users_def
        example_str_def)
  from convert_objectids_correct [of example_str "BList example_users" example_db "JDict []"
      "''users''" "''UsersDB''" "''mongodb://db''" None None None]
  show ?thesis using e by simp
qed

section \<open>A falsy limit\<close>

text \<open>
  Claim C10. In \<open>execute_mongodb_query\<close> and \<open>get_users_by_city\<close> a limit of \<open>0\<close> or
  \<open>None\<close> is no limit: \<open>limit\<close> is never called on the cursor, so the tool returns what
  the query returns on a cursor without a limit, every matching document.
\<close>

theorem falsy_limit_is_no_limit:
  assumes "limit = None \<or> limit = Some 0"
  shows "execute_mongodb_query db str query collection_name database_name connection_string
           projection limit sort_by =
         (case db connection_string database_name collection_name
                 \<lparr>c_filter = query, c_projection = projection,
                  c_sort = (if truthy_list sort_by then sort_by else None), c_limit = None\<rparr> of
            Inl e \<Rightarrow> Inl (wrap_error e)
          | Inr results \<Rightarrow> Inr (convert_objectids str (BList results)))
       \<and> get_users_by_city db str (Some connection_string) city projection limit sort_by =
         (case db connection_string ''UsersDB'' ''users''
                 \<lparr>c_filter = city_filter city, c_projection = projection,
                  c_sort = (if truthy_list sort_by then sort_by else None), c_limit = None\<rparr> of
            Inl e \<Rightarrow> Inl (wrap_error e)
          | Inr results \<Rightarrow> Inr (convert_objectids str (BList results)))"
  using assms
  by (auto simp: execute_mongodb_query_def get_users_by_city_def apply_sort_limit_def)

text \<open>
  On a database that would return nothing under a limit of \<open>0\<close>, both tools return all
  three users for \<open>limit = 0\<close>.
\<close>

theorem falsy_limit_is_no_limit_witness:
  "example_db ''mongodb://db'' ''UsersDB'' ''users''
      \<lparr>c_filter = JDict [], c_projection = None, c_sort = None, c_limit = Some 0\<rparr> = Inr []
   \<and> execute_mongodb_query example_db example_str (JDict []) ''users'' ''UsersDB'' ''mongodb://db''
        None (Some 0) None = Inr (convert_objectids example_str (BList example_users))
   \<and> get_users_by_city example_db example_str (Some ''mongodb://db'') ''Bangalore''
        None (Some 0) None = Inr (convert_objectids example_str (BList example_users))"
proof -
  have h: "Some 0 = None \<or> Some (0::int) = Some 0" by simp
  from falsy_limit_is_no_limit [OF h, of example_db example_str "JDict []" "''users''" "''UsersDB''"
      "''mongodb://db''" None None "''Bangalore''"]
  show ?thesis by (simp add: example_db_def)
qed

section \<open>Counting calls\<close>

lemma model_calls_append [simp]:
  "model_calls (xs @ ys) = model_calls xs + model_calls ys"
  by (simp add: model_calls_def)

lemma model_calls_simps [simp]:
  "model_calls [] = 0"
  "model_calls (ModelCall b # trace) = Suc (model_calls trace)"
  "model_calls (HostCall name arguments # trace) = model_calls trace"
  by (simp_all add: model_calls_def)

lemma map_filter_simps:
  "List.map_filter f [] = []"
  "List.map_filter f (x # xs) =
     (case f x of None \<Rightarrow> List.map_filter f xs | Some y \<Rightarrow> y # List.map_filter f xs)"
  by (simp_all add: List.map_filter_def split: option.splits)

section \<open>The OpenAI loop, step by step\<close>

lemma openai_call_tool_messages:
  "\<exists>c. messages (openai_call_tool host tc st) = messages st @ [ToolMessage (tc_id tc) c]"
  by (auto simp: openai_call_tool_def Let_def split: sum.splits prod.splits)

lemma openai_call_tool_trace:
  "o_trace (openai_call_tool host tc st) = o_trace st @ openai_host_calls host [tc]"
  by (auto simp: openai_call_tool_def openai_host_calls_def map_filter_simps Let_def
      split: sum.splits prod.splits)

lemma openai_host_calls_Cons:
  "openai_host_calls host (tc # tcs) = openai_host_calls host [tc] @ openai_host_calls host tcs"
  by (simp add: openai_host_calls_def List.map_filter_def)

lemma openai_tool_calls_messages:
  "\<exists>results. messages (openai_tool_calls host tcs st) = messages st @ results
      \<and> map tool_call_id results = map (\<lambda>tc. Some (tc_id tc)) tcs"
proof (induction tcs arbitrary: st)
  case Nil
  then show ?case by simp
next
  case (Cons tc tcs)
  obtain c where c: "messages (openai_call_tool host tc st) = messages st @ [ToolMessage (tc_id tc) c]"
    using openai_call_tool_messages by blast
  from Cons [of "openai_call_tool host tc st"] obtain results where
    r: "messages (openai_tool_calls host tcs (openai_call_tool host tc st))
          = messages (openai_call_tool host tc st) @ results"
       "map tool_call_id results = map (\<lambda>tc. Some (tc_id tc)) tcs"
    by blast
  show ?case
  proof (intro exI conjI)
    show "messages (openai_tool_calls host (tc # tcs) st)
            = messages st @ (ToolMessage (tc_id tc) c # results)"
      using c r(1) by simp
    show "map tool_call_id (ToolMessage (tc_id tc) c # results)
            = map (\<lambda>tc. Some (tc_id tc)) (tc # tcs)"
      using r(2) by simp
  qed
qed

lemma openai_tool_calls_trace:
  "o_trace (openai_tool_calls host tcs st) = o_trace st @ openai_host_calls host tcs"
proof (induction tcs arbitrary: st)
  case Nil
  then show ?case by (simp add: openai_host_calls_def map_filter_simps)
next
  case (Cons tc tcs)
  show ?case
    using Cons [of "openai_call_tool host tc st"] openai_host_calls_Cons [of host tc tcs]
    by (simp add: openai_call_tool_trace)
qed

lemma model_calls_openai_host_calls [simp]: "model_calls (openai_host_calls host tcs) = 0"
  by (induction tcs)
     (auto simp: openai_host_calls_def map_filter_simps split: sum.splits)

text \<open>The three ways one pass through the \<open>while\<close> loop can go.\<close>

lemma openai_loop_exhausted:
  assumes "\<not> iteration_count < max_iterations"
    and "create (o_world st) (messages st) None NoTools = (final_response, w)"
  shows "openai_loop host create tools max_iterations iteration_count st =
           (am_content final_response,
            st\<lparr>o_world := w, o_trace := o_trace st @ [ModelCall False]\<rparr>)"
  using assms
  by (simp add: openai_loop.simps [of host create tools max_iterations iteration_count st])

lemma openai_loop_answer:
  assumes "iteration_count < max_iterations"
    and "create (o_world st) (messages st) (Some tools) Auto = (assistant_message, w)"
    and "no_tool_calls (am_tool_calls assistant_message)"
  shows "openai_loop host create tools max_iterations iteration_count st =
           (am_content assistant_message,
            st\<lparr>o_world := w, o_trace := o_trace st @ [ModelCall True],
               messages := messages st @ [AssistantMessage assistant_message]\<rparr>)"
  using assms
  by (simp add: openai_loop.simps [of host create tools max_iterations iteration_count st])

lemma openai_loop_continue:
  assumes "iteration_count < max_iterations"
    and "create (o_world st) (messages st) (Some tools) Auto = (assistant_message, w)"
    and "\<not> no_tool_calls (am_tool_calls assistant_message)"
  shows "openai_loop host create tools max_iterations iteration_count st =
           openai_loop host create tools max_iterations (iteration_count + 1)
             (openai_tool_calls host (the_tool_calls (am_tool_calls assistant_message))
                (st\<lparr>o_world := w, o_trace := o_trace st @ [ModelCall True],
                    messages := messages st @ [AssistantMessage assistant_message]\<rparr>))"
  using assms
  by (simp add: openai_loop.simps [of host create tools max_iterations iteration_count st])

text \<open>
  A property that holds of the state after the final call and after an answer, and is
  carried back over a round of tool calls, holds of every run of the loop.
\<close>

lemma openai_loop_cases [consumes 0, case_names exhausted answer continue]:
  assumes ex: "\<And>iteration_count st final_response w.
      \<not> iteration_count < max_iterations \<Longrightarrow>
      create (o_world st) (messages st) None NoTools = (final_response, w) \<Longrightarrow>
      P iteration_count st (am_content final_response,
            st\<lparr>o_world := w, o_trace := o_trace st @ [ModelCall False]\<rparr>)"
    and an: "\<And>iteration_count st assistant_message w.
      iteration_count < max_iterations \<Longrightarrow>
      create (o_world st) (messages st) (Some tools) Auto = (assistant_message, w) \<Longrightarrow>
      no_tool_calls (am_tool_calls assistant_message) \<Longrightarrow>
      P iteration_count st (am_content assistant_message,
            st\<lparr>o_world := w, o_trace := o_trace st @ [ModelCall True],
               messages := messages st @ [AssistantMessage assistant_message]\<rparr>)"
    and co: "\<And>iteration_count st assistant_message w r.
      iteration_count < max_iterations \<Longrightarrow>
      create (o_world st) (messages st) (Some tools) Auto = (assistant_message, w) \<Longrightarrow>
      \<not> no_tool_calls (am_tool_calls assistant_message) \<Longrightarrow>
      P (iteration_count + 1)
        (openai_tool_calls host (the_tool_calls (am_tool_calls assistant_message))
           (st\<lparr>o_world := w, o_trace := o_trace st @ [ModelCall True],
               messages := messages st @ [AssistantMessage assistant_message]\<rparr>)) r \<Longrightarrow>
      P iteration_count st r"
  shows "P iteration_count st (openai_loop host create tools max_iterations iteration_count st)"
  using ex an co
proof (induction host create tools max_iterations iteration_count st rule: openai_loop.induct)
  case (1 host create tools max_iterations iteration_count st)
  show ?case
  proof (cases "iteration_count < max_iterations")
    case False
    obtain final_response w where
      f: "create (o_world st) (messages st) None NoTools = (final_response, w)"
      by (cases "create (o_world st) (messages st) None NoTools")
    show ?thesis
      using "1.prems"(1) [OF False f] openai_loop_exhausted [where create = create and host = host and tools = tools, OF False f] by simp
  next
    case True
    obtain msg w where cr: "create (o_world st) (messages st) (Some tools) Auto = (msg, w)"
      by (cases "create (o_world st) (messages st) (Some tools) Auto")
    show ?thesis
    proof (cases "no_tool_calls (am_tool_calls msg)")
      case True
      show ?thesis
        using "1.prems"(2) [OF \<open>iteration_count < max_iterations\<close> cr True]
          openai_loop_answer [where create = create and host = host, OF \<open>iteration_count < max_iterations\<close> cr True] by simp
    next
      case False
      have "P (iteration_count + 1)
              (openai_tool_calls host (the_tool_calls (am_tool_calls msg))
                 (st\<lparr>o_world := w, o_trace := o_trace st @ [ModelCall True],
                     messages := messages st @ [AssistantMessage msg]\<rparr>))
              (openai_loop host create tools max_iterations (iteration_count + 1)
                 (openai_tool_calls host (the_tool_calls (am_tool_calls msg))
                    (st\<lparr>o_world := w, o_trace := o_trace st @ [ModelCall True],
                        messages := messages st @ [AssistantMessage msg]\<rparr>)))"
        using "1.IH" [OF True cr [symmetric] refl False] "1.prems" by blast
      then show ?thesis
        using "1.prems"(3) [OF True cr False] openai_loop_continue [where create = create and host = host, OF True cr False] by simp
    qed
  qed
qed

lemma openai_loop_model_calls:
  "model_calls (o_trace (snd (openai_loop host create tools max_iterations iteration_count st)))
     \<le> model_calls (o_trace st) + nat (max_iterations - iteration_count) + 1"
proof (rule openai_loop_cases
    [where P = "\<lambda>i s r. model_calls (o_trace (snd r))
                   \<le> model_calls (o_trace s) + nat (max_iterations - i) + 1"],
    goal_cases)
  case 1
  then show ?case by simp
next
  case 2
  then show ?case by simp
next
  case (3 i s msg w r)
  then show ?case by (simp add: openai_tool_calls_trace)
qed

lemma openai_loop_prefix:
  "prefix (messages st)
     (messages (snd (openai_loop host create tools max_iterations iteration_count st)))"
proof (rule openai_loop_cases
    [where P = "\<lambda>i s r. prefix (messages s) (messages (snd r))"], goal_cases)
  case 1
  then show ?case by simp
next
  case 2
  then show ?case by simp
next
  case (3 i s msg w r)
  obtain results where
    "messages (openai_tool_calls host (the_tool_calls (am_tool_calls msg))
        (s\<lparr>o_world := w, o_trace := o_trace s @ [ModelCall True],
            messages := messages s @ [AssistantMessage msg]\<rparr>))
     = (messages s @ [AssistantMessage msg]) @ results"
    using openai_tool_calls_messages
      [of host "the_tool_calls (am_tool_calls msg)"
          "s\<lparr>o_world := w, o_trace := o_trace s @ [ModelCall True],
              messages := messages s @ [AssistantMessage msg]\<rparr>"]
    by auto
  with 3(4) show ?case
    by (metis append.assoc prefix_order.order_trans prefixI)
qed

section \<open>The Gemini loop, step by step\<close>

lemma google_call_tool_contents:
  "contents (snd (google_call_tool host fc st)) = contents st"
  by (auto simp: google_call_tool_def Let_def split: sum.splits prod.splits)

lemma google_call_tool_trace:
  "g_trace (snd (google_call_tool host fc st)) = g_trace st @ google_host_calls host [fc]"
  by (auto simp: google_call_tool_def google_host_calls_def map_filter_simps Let_def
      split: sum.splits prod.splits)

lemma function_calls_simps:
  "function_calls [] = []"
  "p_function_call p = None \<Longrightarrow> function_calls (p # ps) = function_calls ps"
  "p_function_call p = Some fc \<Longrightarrow> function_calls (p # ps) = fc # function_calls ps"
  by (simp_all add: function_calls_def map_filter_simps)

lemma google_host_calls_Cons:
  "google_host_calls host (fc # fcs) = google_host_calls host [fc] @ google_host_calls host fcs"
  by (simp add: google_host_calls_def List.map_filter_def)

lemma google_tool_calls_contents:
  "contents (fst (google_tool_calls host ps st resp)) = contents st"
proof (induction ps arbitrary: st resp)
  case Nil
  then show ?case by simp
next
  case (Cons p ps)
  show ?case
  proof (cases "p_function_call p")
    case None
    with Cons show ?thesis by simp
  next
    case (Some fc)
    obtain r st' where c: "google_call_tool host fc st = (r, st')"
      by (cases "google_call_tool host fc st")
    then have "contents st' = contents st"
      using google_call_tool_contents [of host fc st] by simp
    with Cons [of st'] Some c show ?thesis by simp
  qed
qed

lemma google_tool_calls_trace:
  "g_trace (fst (google_tool_calls host ps st resp))
     = g_trace st @ google_host_calls host (function_calls ps)"
proof (induction ps arbitrary: st resp)
  case Nil
  then show ?case by (simp add: function_calls_simps google_host_calls_def map_filter_simps)
next
  case (Cons p ps)
  show ?case
  proof (cases "p_function_call p")
    case None
    with Cons show ?thesis by (simp add: function_calls_simps)
  next
    case (Some fc)
    obtain r st' where c: "google_call_tool host fc st = (r, st')"
      by (cases "google_call_tool host fc st")
    then have "g_trace st' = g_trace st @ google_host_calls host [fc]"
      using google_call_tool_trace [of host fc st] by simp
    with Cons [of st'] Some c google_host_calls_Cons [of host fc "function_calls ps"]
    show ?thesis by (simp add: function_calls_simps)
  qed
qed




lemma google_iteration_prefix:
  "prefix (contents st) (contents (google_iteration host assistant_message st))"
proof -
  define st1 where "st1 = st\<lparr>contents := contents st @ [assistant_message]\<rparr>"
  obtain st2 resp where t: "google_tool_calls host (parts assistant_message) st1 [] = (st2, resp)"
    by (cases "google_tool_calls host (parts assistant_message) st1 []")
  have c: "contents st2 = contents st @ [assistant_message]"
    using google_tool_calls_contents [of host "parts assistant_message" st1 "[]"] t
    by (simp add: st1_def)
  show ?thesis
    using t c by (simp add: google_iteration_def Let_def st1_def prefix_def)
qed

lemma google_iteration_trace:
  "g_trace (google_iteration host assistant_message st)
     = g_trace st @ google_host_calls host (function_calls (parts assistant_message))"
proof -
  define st1 where "st1 = st\<lparr>contents := contents st @ [assistant_message]\<rparr>"
  obtain st2 resp where t: "google_tool_calls host (parts assistant_message) st1 [] = (st2, resp)"
    by (cases "google_tool_calls host (parts assistant_message) st1 []")
  have "g_trace st2 = g_trace st @ google_host_calls host (function_calls (parts assistant_message))"
    using google_tool_calls_trace [of host "parts assistant_message" st1 "[]"] t
    by (simp add: st1_def)
  then show ?thesis
    using t by (simp add: google_iteration_def Let_def st1_def)
qed

lemma model_calls_google_host_calls [simp]: "model_calls (google_host_calls host fcs) = 0"
  by (induction fcs)
     (auto simp: google_host_calls_def map_filter_simps split: sum.splits)

text \<open>The ways one pass through the \<open>while\<close> loop can go.\<close>

lemma google_loop_exhausted:
  assumes "\<not> iteration_count < max_iterations"
    and "generate_content (g_world st) (contents st) None = (final_response, w)"
  shows "google_loop host generate_content tools max_iterations iteration_count st =
           (Inl (AttributeError (no_attribute ''GenerateContentResponse'' ''choices'')),
            st\<lparr>g_world := w, g_trace := g_trace st @ [ModelCall False]\<rparr>)"
  using assms
  by (simp add: google_loop.simps [of host generate_content tools max_iterations iteration_count st])

lemma google_loop_stop:
  assumes "iteration_count < max_iterations"
    and "generate_content (g_world st) (contents st)
           (Some \<lparr>cfg_system_instruction = google_system_instruction,
                  cfg_temperature = 0, cfg_tools = tools\<rparr>) = (response, w)"
    and "candidates response = [] \<or>
         \<not> list_ex has_function_call (parts (hd (candidates response)))"
  shows "google_loop host generate_content tools max_iterations iteration_count st =
           ((case candidates response of
               [] \<Rightarrow> Inl (IndexError ''list index out of range'')
             | assistant_message # others \<Rightarrow>
                 (case parts assistant_message of
                    [] \<Rightarrow> Inl (IndexError ''list index out of range'')
                  | p # ps \<Rightarrow> Inr (p_text p))),
            st\<lparr>g_world := w, g_trace := g_trace st @ [ModelCall True]\<rparr>)"
  using assms
  by (auto simp: google_loop.simps [of host generate_content tools max_iterations iteration_count st]
      split: list.splits)

lemma google_loop_continue:
  assumes "iteration_count < max_iterations"
    and "generate_content (g_world st) (contents st)
           (Some \<lparr>cfg_system_instruction = google_system_instruction,
                  cfg_temperature = 0, cfg_tools = tools\<rparr>) = (response, w)"
    and "candidates response = assistant_message # others"
    and "list_ex has_function_call (parts assistant_message)"
  shows "google_loop host generate_content tools max_iterations iteration_count st =
           google_loop host generate_content tools max_iterations (iteration_count + 1)
             (google_iteration host assistant_message
                (st\<lparr>g_world := w, g_trace := g_trace st @ [ModelCall True]\<rparr>))"
  using assms
  by (simp add: google_loop.simps [of host generate_content tools max_iterations iteration_count st])

lemma google_loop_cases [consumes 0, case_names exhausted stop continue]:
  assumes ex: "\<And>iteration_count st final_response w.
      \<not> iteration_count < max_iterations \<Longrightarrow>
      generate_content (g_world st) (contents st) None = (final_response, w) \<Longrightarrow>
      P iteration_count st
        (Inl (AttributeError (no_attribute ''GenerateContentResponse'' ''choices'')),
         st\<lparr>g_world := w, g_trace := g_trace st @ [ModelCall False]\<rparr>)"
    and stop: "\<And>iteration_count st response w res.
      iteration_count < max_iterations \<Longrightarrow>
      generate_content (g_world st) (contents st)
           (Some \<lparr>cfg_system_instruction = google_system_instruction,
                  cfg_temperature = 0, cfg_tools = tools\<rparr>) = (response, w) \<Longrightarrow>
      candidates response = [] \<or>
         \<not> list_ex has_function_call (parts (hd (candidates response))) \<Longrightarrow>
      P iteration_count st (res, st\<lparr>g_world := w, g_trace := g_trace st @ [ModelCall True]\<rparr>)"
    and co: "\<And>iteration_count st response w assistant_message others r.
      iteration_count < max_iterations \<Longrightarrow>
      generate_content (g_world st) (contents st)
           (Some \<lparr>cfg_system_instruction = google_system_instruction,
                  cfg_temperature = 0, cfg_tools = tools\<rparr>) = (response, w) \<Longrightarrow>
      candidates response = assistant_message # others \<Longrightarrow>
      list_ex has_function_call (parts assistant_message) \<Longrightarrow>
      P (iteration_count + 1)
        (google_iteration host assistant_message
           (st\<lparr>g_world := w, g_trace := g_trace st @ [ModelCall True]\<rparr>)) r \<Longrightarrow>
      P iteration_count st r"
  shows "P iteration_count st
           (google_loop host generate_content tools max_iterations iteration_count st)"
  using ex stop co
proof (induction host generate_content tools max_iterations iteration_count st
    rule: google_loop.induct)
  case (1 host generate_content tools max_iterations iteration_count st)
  show ?case
  proof (cases "iteration_count < max_iterations")
    case False
    obtain final_response w where
      f: "generate_content (g_world st) (contents st) None = (final_response, w)"
      by (cases "generate_content (g_world st) (contents st) None")
    show ?thesis
      using "1.prems"(1) [OF False f]
        google_loop_exhausted [where generate_content = generate_content and host = host
          and tools = tools, OF False f]
      by simp
  next
    case True
    obtain response w where
      g: "generate_content (g_world st) (contents st)
           (Some \<lparr>cfg_system_instruction = google_system_instruction,
                  cfg_temperature = 0, cfg_tools = tools\<rparr>) = (response, w)"
      by (cases "generate_content (g_world st) (contents st)
           (Some \<lparr>cfg_system_instruction = google_system_instruction,
                  cfg_temperature = 0, cfg_tools = tools\<rparr>)")
    show ?thesis
    proof (cases "candidates response = [] \<or>
         \<not> list_ex has_function_call (parts (hd (candidates response)))")
      case stop: True
      show ?thesis
        using "1.prems"(2) [OF True g stop]
          google_loop_stop [where generate_content = generate_content and host = host,
            OF True g stop]
        by simp
    next
      case False
      then obtain assistant_message others where
        c: "candidates response = assistant_message # others"
        and h: "list_ex has_function_call (parts assistant_message)"
        by (cases "candidates response") auto
      have "P (iteration_count + 1)
              (google_iteration host assistant_message
                 (st\<lparr>g_world := w, g_trace := g_trace st @ [ModelCall True]\<rparr>))
              (google_loop host generate_content tools max_iterations (iteration_count + 1)
                 (google_iteration host assistant_message
                    (st\<lparr>g_world := w, g_trace := g_trace st @ [ModelCall True]\<rparr>)))"
        using "1.IH" [OF True g [symmetric] refl c _ ] h "1.prems" by blast
      then show ?thesis
        using "1.prems"(3) [OF True g c h]
          google_loop_continue [where generate_content = generate_content and host = host,
            OF True g c h]
        by simp
    qed
  qed
qed

lemma google_loop_model_calls:
  "model_calls (g_trace (snd (google_loop host generate_content tools max_iterations
        iteration_count st)))
     \<le> model_calls (g_trace st) + nat (max_iterations - iteration_count) + 1"
proof (rule google_loop_cases
    [where P = "\<lambda>i s r. model_calls (g_trace (snd r))
                   \<le> model_calls (g_trace s) + nat (max_iterations - i) + 1"],
    goal_cases)
  case 1
  then show ?case by simp
next
  case 2
  then show ?case by simp
next
  case (3 i s response w am others r)
  then show ?case by (simp add: google_iteration_trace)
qed

lemma google_loop_prefix:
  "prefix (contents st)
     (contents (snd (google_loop host generate_content tools max_iterations iteration_count st)))"
proof (rule google_loop_cases
    [where P = "\<lambda>i s r. prefix (contents s) (contents (snd r))"], goal_cases)
  case 1
  then show ?case by simp
next
  case 2
  then show ?case by simp
next
  case (3 i s response w am others r)
  have "prefix (contents s)
          (contents (google_iteration host am
             (s\<lparr>g_world := w, g_trace := g_trace s @ [ModelCall True]\<rparr>)))"
    using google_iteration_prefix
      [of "s\<lparr>g_world := w, g_trace := g_trace s @ [ModelCall True]\<rparr>" host am]
    by simp
  with 3(5) show ?case
    using prefix_order.order_trans by blast
qed

section \<open>Iteration exhaustion\<close>

text \<open>Both loops make at most \<open>max_iterations + 1\<close> model calls when \<open>max_iterations\<close> is not negative.\<close>

lemma process_query_model_calls:
  assumes "0 \<le> max_iterations"
  shows "model_calls (o_trace (snd (openai_process_query host create query max_iterations w0)))
           \<le> nat max_iterations + 1"
    and "model_calls (g_trace (snd (google_process_query host' types_Tool generate_content query max_iterations w0')))
           \<le> nat max_iterations + 1"
proof -
  obtain tools_result w where l: "list_tools host w0 = (tools_result, w)"
    by (cases "list_tools host w0")
  show "model_calls (o_trace (snd (openai_process_query host create query max_iterations w0)))
           \<le> nat max_iterations + 1"
    using openai_loop_model_calls
      [of host create "openai_get_mcp_tools tools_result" max_iterations 0
          "\<lparr>o_world = w,
            messages = [SystemMessage openai_system_instruction, UserMessage query],
            o_trace = []\<rparr>"] l
    by (simp add: openai_process_query_def)
  obtain tools_result' w' where l': "list_tools host' w0' = (tools_result', w')"
    by (cases "list_tools host' w0'")
  show "model_calls (g_trace (snd (google_process_query host' types_Tool generate_content query max_iterations w0')))
           \<le> nat max_iterations + 1"
  proof (cases "google_get_mcp_tools types_Tool tools_result'")
    case (Inl e)
    with l' show ?thesis by (simp add: google_process_query_def)
  next
    case (Inr tools)
    with l' show ?thesis
      using google_loop_model_calls
        [of host' generate_content tools max_iterations 0
            "\<lparr>g_world = w', contents = [\<lparr>role = ''user'', parts = [text_part query]\<rparr>],
              g_trace = []\<rparr>"]
      by (simp add: google_process_query_def)
  qed
qed

text \<open>
  Claim C1 holds of the OpenAI client and fails in the Gemini client, by a slip: after
  the last iteration the Gemini client makes the final call without tools and then reads
  the response as \<open>final_response.choices[0].message.content\<close>, an attribute that the
  response of \<open>generate_content\<close> does not have. With a model that asks for a tool on
  every call and \<open>max_iterations = 2\<close>, both clients make three model calls, the last
  without tools; the OpenAI client returns the last response's content and the Gemini
  client raises \<open>AttributeError\<close>.
\<close>

theorem google_exhaustion_raises:
  "fst (google_process_query example_host accepting_Tool eager_gemini ''How many users are there?'' 2 0)
     = Inl (AttributeError (no_attribute ''GenerateContentResponse'' ''choices''))
   \<and> g_trace (snd (google_process_query example_host accepting_Tool eager_gemini ''How many users are there?'' 2 0))
     = [ModelCall True, HostCall ''get_mongodb_collections'' (JDict []),
        ModelCall True, HostCall ''get_mongodb_collections'' (JDict []), ModelCall False]
   \<and> fst (openai_process_query example_host eager_openai ''How many users are there?'' 2 0)
     = Some ''Still looking.''
   \<and> o_trace (snd (openai_process_query example_host eager_openai ''How many users are there?'' 2 0))
     = [ModelCall True, HostCall ''get_mongodb_collections'' (JDict []),
        ModelCall True, HostCall ''get_mongodb_collections'' (JDict []), ModelCall False]"
  by (simp add: google_process_query_def google_get_mcp_tools_def accepting_Tool_def openai_process_query_def example_host_def
      eager_gemini_def eager_openai_def google_loop.simps openai_loop.simps model_says_def
      call_part_def collections_fc_def collections_call_def has_function_call_def
      google_iteration_def google_call_tool_def openai_call_tool_def Let_def newline_def
      openai_get_mcp_tools_def)

section \<open>The host's error flag\<close>

lemma google_marks_error_flag:
  assumes "load_args host (fc_args fc) = Inr arguments"
    and "call_tool host (g_world st) (fc_name fc) arguments = (Inr result, w)"
    and "join_text (ctr_content result) [] = Inr text"
    and "isError result"
  shows "fst (google_call_tool host fc st) = JDict [(''error'', JStr text)]"
  using assms by (simp add: google_call_tool_def)

text \<open>
  Claim C3 holds of the Gemini client and fails in the OpenAI client, which never reads
  \<open>isError\<close>: for a result with the error flag it appends the very tool message that it
  appends for the same content without the flag, while the Gemini client files the
  content under the key \<open>error\<close>.
\<close>

theorem openai_drops_error_flag:
  "messages (openai_call_tool (failing_host True) collections_call empty_ostate)
     = [ToolMessage ''call_1'' (''Unknown tool'' @ newline)]
   \<and> messages (openai_call_tool (failing_host False) collections_call empty_ostate)
     = [ToolMessage ''call_1'' (''Unknown tool'' @ newline)]
   \<and> fst (google_call_tool (failing_host True) collections_fc empty_gstate)
     = JDict [(''error'', JStr (''Unknown tool'' @ newline))]
   \<and> fst (google_call_tool (failing_host False) collections_fc empty_gstate)
     = JDict [(''result'', JStr (''Unknown tool'' @ newline))]"
  by (simp add: openai_call_tool_def google_call_tool_def failing_host_def collections_call_def
      collections_fc_def empty_ostate_def empty_gstate_def)

section \<open>Malformed arguments\<close>



section \<open>A first response without tool calls\<close>

text \<open>
  The OpenAI client returns the content of a first response without tool calls, after
  one model call, whatever \<open>max_iterations\<close> is.
\<close>

lemma openai_first_response:
  assumes "list_tools host w0 = (tools_result, w)"
    and "create w [SystemMessage openai_system_instruction, UserMessage query]
           (if 0 < max_iterations then Some (openai_get_mcp_tools tools_result) else None)
           (if 0 < max_iterations then Auto else NoTools) = (assistant_message, w1)"
    and "no_tool_calls (am_tool_calls assistant_message)"
  shows "fst (openai_process_query host create query max_iterations w0)
           = am_content assistant_message"
    and "model_calls (o_trace (snd (openai_process_query host create query max_iterations w0))) = 1"
proof -
  define st where "st = \<lparr>o_world = w,
      messages = [SystemMessage openai_system_instruction, UserMessage query],
      o_trace = []\<rparr>"
  have r: "openai_loop host create (openai_get_mcp_tools tools_result) max_iterations 0 st
        = (am_content assistant_message,
           if 0 < max_iterations
           then st\<lparr>o_world := w1, o_trace := o_trace st @ [ModelCall True],
                   messages := messages st @ [AssistantMessage assistant_message]\<rparr>
           else st\<lparr>o_world := w1, o_trace := o_trace st @ [ModelCall False]\<rparr>)"
  proof (cases "0 < max_iterations")
    case True
    with assms(2) have c:
      "create (o_world st) (messages st) (Some (openai_get_mcp_tools tools_result)) Auto
         = (assistant_message, w1)"
      by (simp add: st_def)
    show ?thesis
      using openai_loop_answer [where create = create and host = host, OF True c assms(3)] True
      by simp
  next
    case False
    with assms(2) have c:
      "create (o_world st) (messages st) None NoTools = (assistant_message, w1)"
      by (simp add: st_def)
    show ?thesis
      using openai_loop_exhausted
        [where create = create and host = host and tools = "openai_get_mcp_tools tools_result",
         OF False c] False
      by simp
  qed
  from assms(1) have o: "openai_process_query host create query max_iterations w0
      = openai_loop host create (openai_get_mcp_tools tools_result) max_iterations 0 st"
    by (simp add: openai_process_query_def st_def)
  show "fst (openai_process_query host create query max_iterations w0)
        = am_content assistant_message"
    using o r by simp
  show "model_calls (o_trace (snd (openai_process_query host create query max_iterations w0))) = 1"
    using o r by (simp add: st_def)
qed

text \<open>
  Claim C5 holds of the OpenAI client and fails in the Gemini client, which returns
  \<open>assistant_message.parts[0].text\<close> where its docstring promises the response of the
  model and its comment the final response. Asked through the Gemini client, a model
  whose first response has no tool calls and no parts makes \<open>process_query\<close> raise
  \<open>IndexError\<close>, and of a first response in the two text parts \<open>Found 3 \<close> and
  \<open>users\<close> only the first is returned; the OpenAI client returns the whole content of
  such a response. Each run makes one model call.
\<close>

theorem google_first_part_only:
  "\<not> list_ex has_function_call (parts (hd (candidates (fst (empty_gemini 0 [] None)))))
   \<and> google_process_query example_host accepting_Tool empty_gemini ''How many users are there?'' 5 0
       = (Inl (IndexError ''list index out of range''),
          \<lparr>g_world = 1,
           contents = [\<lparr>role = ''user'', parts = [text_part ''How many users are there?'']\<rparr>],
           g_trace = [ModelCall True]\<rparr>)
   \<and> \<not> list_ex has_function_call (parts (hd (candidates (fst (two_part_gemini 0 [] None)))))
   \<and> google_process_query example_host accepting_Tool two_part_gemini ''How many users are there?'' 5 0
       = (Inr (Some ''Found 3 ''),
          \<lparr>g_world = 1,
           contents = [\<lparr>role = ''user'', parts = [text_part ''How many users are there?'']\<rparr>],
           g_trace = [ModelCall True]\<rparr>)
   \<and> fst (openai_process_query example_host
             (\<lambda>w msgs tools choice.
                (\<lparr>am_content = Some ''Found 3 users'', am_tool_calls = None\<rparr>, Suc w))
             ''How many users are there?'' 5 0)
       = Some ''Found 3 users''"
  by (simp add: google_process_query_def google_get_mcp_tools_def accepting_Tool_def
      openai_process_query_def openai_get_mcp_tools_def openai_loop.simps
      example_host_def empty_gemini_def two_part_gemini_def
      google_loop.simps model_says_def text_part_def has_function_call_def)

section \<open>The order of tool calls and of their results\<close>









section \<open>The transcript only grows\<close>

text \<open>
  Claim C8. Every step of a run leaves the transcript as it is or appends to it: what was
  in \<open>messages\<close> (OpenAI) or \<open>contents\<close> (Gemini) before a tool call, a round of tool
  calls, or the whole loop is a prefix of what is there after it, and the transcript the
  query starts with is a prefix of the final one.
\<close>

theorem transcript_append_only:
  "prefix (messages st) (messages (openai_call_tool host tc st))
   \<and> prefix (messages st) (messages (openai_tool_calls host tcs st))
   \<and> prefix (messages st)
       (messages (snd (openai_loop host create tools max_iterations iteration_count st)))
   \<and> prefix [SystemMessage openai_system_instruction, UserMessage query]
       (messages (snd (openai_process_query host create query max_iterations w0)))
   \<and> contents (snd (google_call_tool ghost fc gst)) = contents gst
   \<and> contents (fst (google_tool_calls ghost ps gst fc_parts_response)) = contents gst
   \<and> prefix (contents gst) (contents (google_iteration ghost assistant_message gst))
   \<and> prefix (contents gst)
       (contents (snd (google_loop ghost generate_content gtools max_iterations iteration_count gst)))"
proof (intro conjI)
  show "prefix (messages st) (messages (openai_call_tool host tc st))"
    using openai_call_tool_messages [of host tc st] by (auto simp: prefix_def)
  show "prefix (messages st) (messages (openai_tool_calls host tcs st))"
    using openai_tool_calls_messages [of host tcs st] by (auto simp: prefix_def)
  show "prefix (messages st)
       (messages (snd (openai_loop host create tools max_iterations iteration_count st)))"
    by (rule openai_loop_prefix)
  show "prefix [SystemMessage openai_system_instruction, UserMessage query]
       (messages (snd (openai_process_query host create query max_iterations w0)))"
  proof -
    obtain tools_result w where l: "list_tools host w0 = (tools_result, w)"
      by (cases "list_tools host w0")
    show ?thesis
      using openai_loop_prefix
        [of "\<lparr>o_world = w,
             messages = [SystemMessage openai_system_instruction, UserMessage query],
             o_trace = []\<rparr>" host create "openai_get_mcp_tools tools_result" max_iterations 0] l
      by (simp add: openai_process_query_def)
  qed
  show "contents (snd (google_call_tool ghost fc gst)) = contents gst"
    by (rule google_call_tool_contents)
  show "contents (fst (google_tool_calls ghost ps gst fc_parts_response)) = contents gst"
    by (rule google_tool_calls_contents)
  show "prefix (contents gst) (contents (google_iteration ghost assistant_message gst))"
    by (rule google_iteration_prefix)
  show "prefix (contents gst)
       (contents (snd (google_loop ghost generate_content gtools max_iterations iteration_count gst)))"
    by (rule google_loop_prefix)
qed

text \<open>The transcripts of the scripted runs, turn by turn.\<close>

theorem transcript_append_only_witness:
  "messages (snd (openai_process_query example_host scripted_openai ''How many users are there?'' 5 0))
     = [SystemMessage openai_system_instruction, UserMessage ''How many users are there?'',
        AssistantMessage \<lparr>am_content = None,
                          am_tool_calls = Some [collections_call, malformed_call]\<rparr>,
        ToolMessage ''call_1'' (''users'' @ newline),
        ToolMessage ''call_2''
          ''Error executing tool: Expecting property name enclosed in double quotes: line 1 column 2 (char 1)'',
        AssistantMessage \<lparr>am_content = Some ''Found 3 users'', am_tool_calls = None\<rparr>]
   \<and> prefix [SystemMessage openai_system_instruction,
              UserMessage ''How many users are there?'']
        (messages (snd (openai_process_query example_host scripted_openai
           ''How many users are there?'' 5 0)))
   \<and> map role (contents (snd (google_process_query example_host accepting_Tool scripted_gemini
           ''How many users are there?'' 5 0)))
     = [''user'', ''model'', ''function'']"
proof -
  have o: "messages (snd (openai_process_query example_host scripted_openai ''How many users are there?'' 5 0))
     = [SystemMessage openai_system_instruction, UserMessage ''How many users are there?'',
        AssistantMessage \<lparr>am_content = None,
                          am_tool_calls = Some [collections_call, malformed_call]\<rparr>,
        ToolMessage ''call_1'' (''users'' @ newline),
        ToolMessage ''call_2''
          ''Error executing tool: Expecting property name enclosed in double quotes: line 1 column 2 (char 1)'',
        AssistantMessage \<lparr>am_content = Some ''Found 3 users'', am_tool_calls = None\<rparr>]"
    by (simp add: openai_process_query_def example_host_def scripted_openai_def
        openai_loop.simps openai_call_tool_def Let_def error_executing_tool_def
        openai_get_mcp_tools_def collections_call_def malformed_call_def)
  have g: "map role (contents (snd (google_process_query example_host accepting_Tool scripted_gemini
           ''How many users are there?'' 5 0)))
     = [''user'', ''model'', ''function'']"
    by (simp add: google_process_query_def google_get_mcp_tools_def accepting_Tool_def example_host_def scripted_gemini_def
        google_loop.simps model_says_def call_part_def text_part_def collections_fc_def
        malformed_fc_def has_function_call_def google_iteration_def google_call_tool_def Let_def)
  from transcript_append_only
    [of empty_ostate example_host collections_call "[]" scripted_openai "[]" 5 0
        "''How many users are there?''" 0 example_host collections_fc empty_gstate "[]" "[]"
        "\<lparr>role = ''model'', parts = []\<rparr>" scripted_gemini "[]"]
  show ?thesis using o g by simp
qed

end
